theory Spec2Isabelle
  imports Complex_Main
begin

section \<open>Data model of the street simulation (src/src/index.ts)\<close>

text \<open>
  JavaScript numbers are modelled as reals; the thresholds and steps of the code
  (0.25, 0.5, 1, 8, 100, 200, 500) are exact in both. The values \<open>Infinity\<close>,
  \<open>-Infinity\<close> and \<open>undefined\<close> that the code produces are explicit constructors.

  Objects are immutable snapshots compared with \<open>===\<close> in three places. Each object
  therefore carries the address \<open>oid\<close> at which it was allocated, \<open>a === b\<close> is
  equality of addresses, and every \<open>new\<close> takes the address of the object it
  allocates as an explicit argument.
\<close>

datatype LaneDirection = LEFT | RIGHT

fun directionValue :: "LaneDirection \<Rightarrow> real" where
  "directionValue LEFT = -1"
| "directionValue RIGHT = 1"

datatype ObstacleAvoidanceType = NONE | BRAKE | PASS

definition STOPPED :: real where "STOPPED = 0"
definition SLOW :: real where "SLOW = 4"
definition MEDIUM :: real where "MEDIUM = 10"
definition FAST :: real where "FAST = 14"

datatype Number = Num real | Infinity | NegInfinity

fun lessThan_Number :: "Number \<Rightarrow> Number \<Rightarrow> bool" where
  "lessThan_Number (Num a) (Num b) = (a < b)"
| "lessThan_Number (Num a) Infinity = True"
| "lessThan_Number NegInfinity (Num b) = True"
| "lessThan_Number NegInfinity Infinity = True"
| "lessThan_Number _ _ = False"

text \<open>
  \<open>GameObject\<close> and \<open>Player\<close> are declared in ./game and ./player, which are not in
  src/: the record has the fields that index.ts reads (position, size, image), and a
  player is a plain game object.
\<close>

record GameObject =
  oid :: nat
  x :: real
  y :: real
  width :: real
  height :: real
  image :: "string option"

type_synonym Player = GameObject

record CrosswalkSign = GameObject +
  direction :: LaneDirection
  crosswalk :: GameObject
  flashing :: bool
  flashingSequence :: bool
  timestampOfPreviousFlash :: int
  notFlashingImage :: "string option"
  flashingImage :: "string option"

record Obstacle = GameObject +
  speed :: real
  direction :: LaneDirection
  avoidance :: ObstacleAvoidanceType
  detectCollisions :: bool
  emergencyVehicle :: bool
  originalSpeed :: real
  originalY :: real

text \<open>An element of a \<open>GameObject[]\<close>, with the class that \<open>instanceof\<close> tests.\<close>

datatype Entity =
  ObstacleE Obstacle
| PlayerE GameObject
| CrosswalkSignE CrosswalkSign
| GameObjectE GameObject

fun entityX :: "Entity \<Rightarrow> real" where
  "entityX (ObstacleE ob) = x ob"
| "entityX (PlayerE p) = x p"
| "entityX (CrosswalkSignE s) = x s"
| "entityX (GameObjectE g) = x g"

fun entityY :: "Entity \<Rightarrow> real" where
  "entityY (ObstacleE ob) = y ob"
| "entityY (PlayerE p) = y p"
| "entityY (CrosswalkSignE s) = y s"
| "entityY (GameObjectE g) = y g"

text \<open>\<open>gameObject === this\<close> for \<open>this\<close> an obstacle: only an obstacle at the same address.\<close>

fun identical :: "Entity \<Rightarrow> Obstacle \<Rightarrow> bool" where
  "identical (ObstacleE ob) this = (oid ob = oid this)"
| "identical _ this = False"

text \<open>\<open>closestObstacle instanceof Obstacle ? closestObstacle.speed : 0\<close>\<close>

fun speedOrZero :: "Entity \<Rightarrow> real" where
  "speedOrZero (ObstacleE ob) = speed ob"
| "speedOrZero _ = 0"

text \<open>
  Modelled from the spec: \<open>GameObject.intersects\<close> is declared in ./game, which is absent.
  The spec's data model gives the bounding box [x, x+width] \<times> [y, y+height] and
  "closed-interval AABB overlap in both axes ... overlap iff neither rectangle is entirely
  left-of/right-of/above/below the other".
\<close>

definition intersects :: "'a GameObject_scheme \<Rightarrow> 'b GameObject_scheme \<Rightarrow> bool" where
  "intersects a b \<longleftrightarrow>
     \<not> (x a + width a < x b \<or> x b + width b < x a \<or>
        y a + height a < y b \<or> y b + height b < y a)"

subsection \<open>Obstacle\<close>

definition new_Obstacle ::
  "nat \<Rightarrow> real \<Rightarrow> real \<Rightarrow> real \<Rightarrow> real \<Rightarrow> real \<Rightarrow> LaneDirection \<Rightarrow> string option \<Rightarrow>
   ObstacleAvoidanceType \<Rightarrow> bool \<Rightarrow> bool \<Rightarrow> real \<Rightarrow> real \<Rightarrow> Obstacle" where
  "new_Obstacle a x0 y0 w h s d img av dc ev os oy =
     \<lparr> oid = a, x = x0, y = y0, width = w, height = h, image = img,
       speed = s, Obstacle.direction = d, avoidance = av, detectCollisions = dc,
       emergencyVehicle = ev, originalSpeed = os, originalY = oy \<rparr>"

text \<open>
  The constructor called without its last two arguments: the parameters
  \<open>originalSpeed = speed\<close> and \<open>originalY = y\<close> take their defaults.
\<close>

definition new_Obstacle_defaults ::
  "nat \<Rightarrow> real \<Rightarrow> real \<Rightarrow> real \<Rightarrow> real \<Rightarrow> real \<Rightarrow> LaneDirection \<Rightarrow> string option \<Rightarrow>
   ObstacleAvoidanceType \<Rightarrow> bool \<Rightarrow> bool \<Rightarrow> Obstacle" where
  "new_Obstacle_defaults a x0 y0 w h s d img av dc ev =
     new_Obstacle a x0 y0 w h s d img av dc ev s y0"

definition getCrashedImage :: "string option" where
  "getCrashedImage = Some ''images/obstacles/crashed.png''"

definition clone :: "nat \<Rightarrow> Obstacle \<Rightarrow> real \<Rightarrow> real \<Rightarrow> Obstacle" where
  "clone a this x0 y0 =
     new_Obstacle a x0 y0 (width this) (height this) (speed this) (Obstacle.direction this)
       (image this) (avoidance this) (detectCollisions this) (emergencyVehicle this)
       (originalSpeed this) (originalY this)"

definition collisionDetected :: "Obstacle \<Rightarrow> Obstacle list \<Rightarrow> bool" where
  "collisionDetected this obstacles =
     list_ex (\<lambda>obstacle. if oid obstacle = oid this then False else intersects this obstacle)
       obstacles"

definition isObjectInFront :: "Obstacle \<Rightarrow> Entity \<Rightarrow> bool" where
  "isObjectInFront this gameObject =
     (let isObjectInLane =
            (entityY gameObject \<ge> y this - height this \<and>
             entityY gameObject \<le> y this + height this)
      in isObjectInLane \<and>
         ((Obstacle.direction this = RIGHT \<and> x this < entityX gameObject) \<or>
          (Obstacle.direction this = LEFT \<and> x this > entityX gameObject)))"

text \<open>The body of the \<open>forEach\<close> in \<open>getClosestObject\<close>, on the pair of its two variables.\<close>

definition closestStep ::
  "Obstacle \<Rightarrow> Entity option \<times> Number \<Rightarrow> Entity \<Rightarrow> Entity option \<times> Number" where
  "closestStep this acc gameObject =
     (case acc of (closestObstacle, closestDistance) \<Rightarrow>
        if isObjectInFront this gameObject then
          (let distance = \<bar>x this - entityX gameObject\<bar>
           in if lessThan_Number (Num distance) closestDistance
              then (Some gameObject, Num distance)
              else (closestObstacle, closestDistance))
        else (closestObstacle, closestDistance))"

definition getClosestObject :: "Obstacle \<Rightarrow> Entity list \<Rightarrow> Entity option" where
  "getClosestObject this gameObjects = fst (foldl (closestStep this) (None, Infinity) gameObjects)"

definition getDistanceTo :: "Obstacle \<Rightarrow> Entity \<Rightarrow> real" where
  "getDistanceTo this gameObject = \<bar>x this - entityX gameObject\<bar>"

text \<open>\<open>None\<close> is \<open>undefined\<close>.\<close>

definition calculateTimeToCollision :: "Obstacle \<Rightarrow> Entity list \<Rightarrow> Number option" where
  "calculateTimeToCollision this gameObjects =
     (case getClosestObject this gameObjects of
        None \<Rightarrow> None
      | Some closestObstacle \<Rightarrow>
          (let distanceToClosestObstacle = getDistanceTo this closestObstacle;
               relativeSpeed = speed this - speedOrZero closestObstacle
           in if relativeSpeed \<le> 0 then Some NegInfinity
              else Some (Num (distanceToClosestObstacle / relativeSpeed))))"

definition calculateDistanceToClosestObject :: "Obstacle \<Rightarrow> Entity list \<Rightarrow> Number" where
  "calculateDistanceToClosestObject this gameObjects =
     (case getClosestObject this gameObjects of
        Some closest \<Rightarrow> Num (getDistanceTo this closest)
      | None \<Rightarrow> Infinity)"

definition emergencyVehicleDetected :: "Obstacle \<Rightarrow> Obstacle list \<Rightarrow> bool" where
  "emergencyVehicleDetected this obstacles =
     list_ex (\<lambda>obstacle. if oid obstacle = oid this then False else emergencyVehicle obstacle)
       obstacles"

text \<open>
  \<open>timeToCollision && timeToCollision > 0 && timeToCollision < 100\<close>: \<open>undefined\<close> and 0
  are falsy, every other number is truthy.
\<close>

definition inBrakingWindow :: "Number option \<Rightarrow> bool" where
  "inBrakingWindow timeToCollision =
     (case timeToCollision of
        None \<Rightarrow> False
      | Some t \<Rightarrow> t \<noteq> Num 0 \<and> lessThan_Number (Num 0) t \<and> lessThan_Number t (Num 100))"

definition hazards :: "Obstacle \<Rightarrow> Player \<Rightarrow> Obstacle list \<Rightarrow> Entity list" where
  "hazards this player obstacles =
     filter (\<lambda>gameObject. \<not> identical gameObject this)
       (map ObstacleE obstacles @ [PlayerE player])"

definition calculateSpeed :: "Obstacle \<Rightarrow> Player \<Rightarrow> Obstacle list \<Rightarrow> real" where
  "calculateSpeed this player obstacles =
     (if avoidance this = BRAKE then
        (let gameObjects = hazards this player obstacles;
             timeToCollision = calculateTimeToCollision this gameObjects;
             newSpeed0 = speed this;
             newSpeed1 =
               (if inBrakingWindow timeToCollision then newSpeed0 - 0.5 else newSpeed0);
             distanceToClosest = calculateDistanceToClosestObject this gameObjects;
             newSpeed2 =
               (if lessThan_Number distanceToClosest (Num 200)
                then newSpeed1 - 0.5 else newSpeed1);
             newSpeed3 =
               (if lessThan_Number distanceToClosest (Num 100) \<or>
                   emergencyVehicleDetected this obstacles
                then newSpeed2 - 1
                else if originalSpeed this \<noteq> 0 \<and> newSpeed2 < originalSpeed this
                then newSpeed2 + 0.25
                else newSpeed2)
         in max newSpeed3 0)
      else speed this)"

text \<open>
  \<open>calculateYForPassing\<close> allocates the return preview at address \<open>a\<close>. The cast
  \<open>as Obstacle\<close> is the pattern \<open>ObstacleE\<close>: the list searched holds obstacles only.
\<close>

definition calculateYForPassing :: "Obstacle \<Rightarrow> Player \<Rightarrow> Obstacle list \<Rightarrow> nat \<Rightarrow> real" where
  "calculateYForPassing this player obstacles a =
     (if avoidance this \<noteq> PASS then y this
      else case getClosestObject this (map ObstacleE obstacles) of
        Some (ObstacleE closestObstacle) \<Rightarrow>
          if speed this < speed closestObstacle then originalY this
          else
            (let distanceAwayFromOriginal = \<bar>originalY this - y this\<bar>;
                 returnPreview = clone a this (x this) (originalY this)
             in if distanceAwayFromOriginal > height this \<and>
                   \<not> collisionDetected returnPreview obstacles \<and>
                   (case getClosestObject returnPreview (map ObstacleE obstacles) of
                      None \<Rightarrow> True
                    | Some closestIfReturned \<Rightarrow>
                        getDistanceTo returnPreview closestIfReturned > 5 * width this)
                then originalY this
                else if getDistanceTo this (ObstacleE closestObstacle) > 2 * width this
                then y this
                else
                  (let newY = y this;
                       directionMultiplier = (if Obstacle.direction this = RIGHT then -1 else 1);
                       yAdjustment = 8 * directionMultiplier;
                       maxPassDistance = height this
                   in if distanceAwayFromOriginal < maxPassDistance
                      then y this + yAdjustment else newY))
      | _ \<Rightarrow> y this)"

text \<open>
  \<open>moveObstacle\<close> is given two unused addresses: \<open>a\<close> for the return preview and
  \<open>Suc a\<close> for the snapshot it returns.
\<close>

definition moveObstacle :: "Obstacle \<Rightarrow> Player \<Rightarrow> Obstacle list \<Rightarrow> nat \<Rightarrow> Obstacle" where
  "moveObstacle this player obstacles a =
     (let collided = (detectCollisions this \<and> collisionDetected this obstacles)
      in if collided then
           new_Obstacle (Suc a) (x this) (y this) (width this) (height this) STOPPED
             (Obstacle.direction this) getCrashedImage NONE False False
             (originalSpeed this) (originalY this)
         else
           (let adjustedSpeed = calculateSpeed this player obstacles;
                newX = x this + adjustedSpeed * directionValue (Obstacle.direction this);
                newY = calculateYForPassing this player obstacles a
            in new_Obstacle (Suc a) newX newY (width this) (height this) adjustedSpeed
                 (Obstacle.direction this) (image this) (avoidance this) (detectCollisions this)
                 (emergencyVehicle this) (originalSpeed this) (originalY this)))"

text \<open>
  Successive ticks of one obstacle: each tick has its own player, obstacle list and
  addresses, and the snapshot returned by one tick is the receiver of the next.
\<close>

fun ticks :: "Obstacle \<Rightarrow> (Player \<times> Obstacle list \<times> nat) list \<Rightarrow> Obstacle" where
  "ticks this [] = this"
| "ticks this ((player, obstacles, a) # rest) = ticks (moveObstacle this player obstacles a) rest"

subsection \<open>ObstacleProducer and its two subclasses\<close>

text \<open>
  \<open>Date.now()\<close> is an input: a method that reads the clock takes the reading as an
  argument (milliseconds, an integer). The two \<open>throw new Error\<close> are the two errors.
  The class of a producer decides which \<open>readyForNext\<close> runs; the target-gated class
  carries its \<open>target\<close>. \<open>lastObstacleTime\<close> is the one field that is assigned after
  construction, so \<open>next\<close> returns the producer with it.
\<close>

datatype error = PlayerNotFound | CrosswalkSignNotFound

datatype ProducerClass =
  ObstacleProducerC
| TargetObstacleProducerC GameObject
| CrosswalkObstacleProducerC

record ObstacleProducer =
  template :: Obstacle
  maxFrequencyInSeconds :: real
  assignX :: bool
  randomizeTraffic :: bool
  lastObstacleTime :: int
  producerClass :: ProducerClass

definition new_ObstacleProducer :: "Obstacle \<Rightarrow> real \<Rightarrow> bool \<Rightarrow> bool \<Rightarrow> ObstacleProducer" where
  "new_ObstacleProducer tmpl maxFrequency assign randomize =
     \<lparr> template = tmpl, maxFrequencyInSeconds = maxFrequency, assignX = assign,
       randomizeTraffic = randomize, lastObstacleTime = 0,
       producerClass = ObstacleProducerC \<rparr>"

definition new_TargetObstacleProducer ::
  "Obstacle \<Rightarrow> real \<Rightarrow> bool \<Rightarrow> GameObject \<Rightarrow> ObstacleProducer" where
  "new_TargetObstacleProducer tmpl maxFrequency assign target =
     (new_ObstacleProducer tmpl maxFrequency assign False)
       \<lparr> producerClass := TargetObstacleProducerC target \<rparr>"

definition new_CrosswalkObstacleProducer :: "Obstacle \<Rightarrow> ObstacleProducer" where
  "new_CrosswalkObstacleProducer tmpl =
     (new_ObstacleProducer tmpl 100000 False False)
       \<lparr> producerClass := CrosswalkObstacleProducerC \<rparr>"

text \<open>\<open>objects.find((object) => object instanceof Player)\<close> and the same for the sign.\<close>

fun findPlayer :: "Entity list \<Rightarrow> GameObject option" where
  "findPlayer [] = None"
| "findPlayer (PlayerE p # rest) = Some p"
| "findPlayer (_ # rest) = findPlayer rest"

fun findCrosswalkSign :: "Entity list \<Rightarrow> CrosswalkSign option" where
  "findCrosswalkSign [] = None"
| "findCrosswalkSign (CrosswalkSignE s # rest) = Some s"
| "findCrosswalkSign (_ # rest) = findCrosswalkSign rest"

definition readyForNext_base :: "ObstacleProducer \<Rightarrow> Entity list \<Rightarrow> int \<Rightarrow> bool" where
  "readyForNext_base this objects now =
     (let currentTime = now;
          timeSinceLastObstacle = real_of_int (currentTime - lastObstacleTime this) / 1000
      in timeSinceLastObstacle > maxFrequencyInSeconds this)"

definition readyForNext_Target ::
  "ObstacleProducer \<Rightarrow> GameObject \<Rightarrow> Entity list \<Rightarrow> int \<Rightarrow> error + bool" where
  "readyForNext_Target this target objects now =
     (let ready = readyForNext_base this objects now
      in if ready then
           (case findPlayer objects of
              None \<Rightarrow> Inl PlayerNotFound
            | Some player \<Rightarrow> Inr (intersects player target))
         else Inr False)"

definition readyForNext_Crosswalk ::
  "ObstacleProducer \<Rightarrow> Entity list \<Rightarrow> int \<Rightarrow> error + bool" where
  "readyForNext_Crosswalk this objects now =
     (if readyForNext_base this objects now then
        (case findCrosswalkSign objects of
           None \<Rightarrow> Inl CrosswalkSignNotFound
         | Some sign \<Rightarrow> Inr (flashing sign))
      else Inr False)"

definition readyForNext :: "ObstacleProducer \<Rightarrow> Entity list \<Rightarrow> int \<Rightarrow> error + bool" where
  "readyForNext this objects now =
     (case producerClass this of
        ObstacleProducerC \<Rightarrow> Inr (readyForNext_base this objects now)
      | TargetObstacleProducerC target \<Rightarrow> readyForNext_Target this target objects now
      | CrosswalkObstacleProducerC \<Rightarrow> readyForNext_Crosswalk this objects now)"

text \<open>\<open>next\<close> allocates the clone at address \<open>a\<close> and stamps the reading \<open>now\<close>.\<close>

definition "next" :: "ObstacleProducer \<Rightarrow> real \<Rightarrow> int \<Rightarrow> nat \<Rightarrow> Obstacle \<times> ObstacleProducer" where
  "next this x0 now a =
     (let x1 = (if \<not> assignX this then x (template this) else x0);
          obstacle = clone a (template this) x1 (y (template this))
      in (obstacle, this\<lparr> lastObstacleTime := now \<rparr>))"

subsection \<open>Lane\<close>

record Lane =
  direction :: LaneDirection
  laneWidth :: real
  streetLength :: real
  centerY :: real
  obstacleProducers :: "ObstacleProducer list"
  obstacles :: "Obstacle list"

definition addObstacle :: "Lane \<Rightarrow> Obstacle \<Rightarrow> Lane" where
  "addObstacle this obstacle =
     (let newObstacles = Lane.obstacles this @ [obstacle]
      in this\<lparr> Lane.obstacles := newObstacles \<rparr>)"

text \<open>
  \<open>updateObstacles\<close> makes one \<open>moveObstacle\<close> call for each obstacle of the lane; the
  call for the obstacle at index i is given the addresses \<open>a + 2 * i\<close> and the next.
\<close>

definition stillOnStreet :: "Lane \<Rightarrow> Obstacle \<Rightarrow> bool" where
  "stillOnStreet this obstacle =
     (if Lane.direction this = LEFT
      then x obstacle + width obstacle > 0
      else x obstacle < Lane.streetLength this)"

definition updateObstacles :: "Lane \<Rightarrow> Player \<Rightarrow> Obstacle list \<Rightarrow> nat \<Rightarrow> Lane" where
  "updateObstacles this player allObstacles a =
     (let newObstacles =
            filter (\<lambda>obstacle. stillOnStreet this obstacle)
              (map (\<lambda>(i, obstacle). moveObstacle obstacle player allObstacles (a + 2 * i))
                 (enumerate 0 (Lane.obstacles this)))
      in this\<lparr> Lane.obstacles := newObstacles \<rparr>)"

subsection \<open>Street.generateObstacles\<close>

text \<open>
  The clock is the sequence of readings that successive \<open>Date.now()\<close> calls return; the
  world counts the readings taken and holds the next unused address. The two
  \<open>Math.random()\<close> results are arguments.
\<close>

type_synonym Clock = "nat \<Rightarrow> int"

record World =
  allocated :: nat
  clockReads :: nat

record Street =
  topOfStreetY :: real
  streetLength :: real
  lanes :: "Lane list"
  sceneObjects :: "Entity list"

text \<open>The \<open>do ... while\<close> loop: the body runs, then the condition decides on a further run.\<close>

function attemptLoop ::
  "Clock \<Rightarrow> Lane \<Rightarrow> ObstacleProducer \<Rightarrow> real \<Rightarrow> nat \<Rightarrow> World \<Rightarrow>
   Obstacle \<times> ObstacleProducer \<times> nat \<times> World" where
  "attemptLoop clk lane producer safeX attempts w =
     (let (newObstacle, producer1) = next producer safeX (clk (clockReads w)) (allocated w);
          w1 = \<lparr> allocated = Suc (allocated w), clockReads = Suc (clockReads w) \<rparr>;
          safeX1 = safeX + 2 * width newObstacle * - directionValue (Lane.direction lane);
          attempts1 = attempts + 1
      in if attempts1 < 3 \<and> collisionDetected newObstacle (Lane.obstacles lane)
         then attemptLoop clk lane producer1 safeX1 attempts1 w1
         else (newObstacle, producer1, attempts1, w1))"
  by pat_completeness auto
termination
  by (relation "measure (\<lambda>(clk, lane, producer, safeX, attempts, w). 3 - attempts)") auto

declare attemptLoop.simps [simp del]

text \<open>
  A \<open>throw\<close> leaves \<open>generateObstacles\<close> at once. What the call has assigned in place
  by then stays: \<open>next\<close> assigns \<open>lastObstacleTime\<close> of the producer object, which the
  lanes of the receiver street hold. The lanes built with \<open>addObstacle\<close> are new objects
  held by the local variable only, and are lost. The error case of each function
  therefore carries what the throw leaves behind: the producers, the lane, the lanes
  and at last the receiver street with the time stamps assigned so far and the
  obstacles as they were, and the world.

  The callback of \<open>lane.obstacleProducers.map\<close> for the producer at \<open>index\<close>: it returns
  the producer as \<open>next\<close> left it and the lane with the obstacle added, or the error that
  \<open>readyForNext\<close> threw, after its clock reading.
\<close>

definition produceOne ::
  "Clock \<Rightarrow> Entity list \<Rightarrow> real \<Rightarrow> int \<Rightarrow> nat \<Rightarrow> ObstacleProducer \<Rightarrow> Lane \<Rightarrow> World \<Rightarrow>
   (error \<times> World) + (ObstacleProducer \<times> Lane \<times> World)" where
  "produceOne clk objects x0 randomProducerIndex index producer lane w =
     (let w1 = w\<lparr> clockReads := Suc (clockReads w) \<rparr>
      in case readyForNext producer objects (clk (clockReads w)) of
           Inl e \<Rightarrow> Inl (e, w1)
         | Inr ready \<Rightarrow>
             if ready \<and> (\<not> randomizeTraffic producer \<or> int index = randomProducerIndex)
             then
               (case attemptLoop clk lane producer x0 0 w1 of
                  (newObstacle, producer1, attempts, w2) \<Rightarrow>
                    Inr (producer1, addObstacle lane newObstacle, w2))
             else Inr (producer, lane, w1))"

text \<open>
  The \<open>map\<close> itself, over the producers from \<open>index\<close> on. A throw ends it: the producers
  before the one that threw keep their stamps, the rest are as they were.
\<close>

fun produce ::
  "Clock \<Rightarrow> Entity list \<Rightarrow> real \<Rightarrow> int \<Rightarrow> nat \<Rightarrow> ObstacleProducer list \<Rightarrow> Lane \<Rightarrow> World \<Rightarrow>
   (error \<times> ObstacleProducer list \<times> World) + (ObstacleProducer list \<times> Lane \<times> World)" where
  "produce clk objects x0 randomProducerIndex index [] lane w = Inr ([], lane, w)"
| "produce clk objects x0 randomProducerIndex index (producer # rest) lane w =
     (case produceOne clk objects x0 randomProducerIndex index producer lane w of
        Inl (e, w1) \<Rightarrow> Inl (e, producer # rest, w1)
      | Inr (producer1, lane1, w1) \<Rightarrow>
          (case produce clk objects x0 randomProducerIndex (Suc index) rest lane1 w1 of
             Inl (e, producers, w2) \<Rightarrow> Inl (e, producer1 # producers, w2)
           | Inr (producers, lane2, w2) \<Rightarrow> Inr (producer1 # producers, lane2, w2)))"

definition generateLane ::
  "Street \<Rightarrow> Player \<Rightarrow> real \<Rightarrow> Clock \<Rightarrow> Lane \<Rightarrow> World \<Rightarrow>
   (error \<times> Lane \<times> World) + (Lane \<times> World)" where
  "generateLane this player random2 clk lane w =
     (let maxPerLane = 15
      in if length (Lane.obstacles lane) < maxPerLane then
           (let offsetOffCanvas = 50;
                x0 = (if Lane.direction lane = LEFT
                      then Lane.streetLength lane + offsetOffCanvas
                      else 0 - offsetOffCanvas);
                producersCount = length (obstacleProducers lane);
                randomProducerIndex = \<lfloor>random2 * real producersCount\<rfloor>;
                objects = map ObstacleE (Lane.obstacles lane) @ sceneObjects this @ [PlayerE player]
            in case produce clk objects x0 randomProducerIndex 0 (obstacleProducers lane) lane w of
                 Inl (e, producers, w1) \<Rightarrow> Inl (e, lane\<lparr> obstacleProducers := producers \<rparr>, w1)
               | Inr (producers, lane1, w1) \<Rightarrow>
                   Inr (lane1\<lparr> obstacleProducers := producers \<rparr>, w1))
         else Inr (lane, w))"

text \<open>
  The \<open>map\<close> over the lanes from \<open>index\<close> on. In the error case a lane that was passed
  before the throw is the lane of the receiver street, with its producers as the call
  left them.
\<close>

fun generateLanes ::
  "Street \<Rightarrow> Player \<Rightarrow> int \<Rightarrow> real \<Rightarrow> Clock \<Rightarrow> nat \<Rightarrow> Lane list \<Rightarrow> World \<Rightarrow>
   (error \<times> Lane list \<times> World) + (Lane list \<times> World)" where
  "generateLanes this player randomLaneIndex random2 clk index [] w = Inr ([], w)"
| "generateLanes this player randomLaneIndex random2 clk index (lane # rest) w =
     (case (if int index = randomLaneIndex
            then generateLane this player random2 clk lane w
            else Inr (lane, w)) of
        Inl (e, lane1, w1) \<Rightarrow> Inl (e, lane1 # rest, w1)
      | Inr (lane1, w1) \<Rightarrow>
          (case generateLanes this player randomLaneIndex random2 clk (Suc index) rest w1 of
             Inl (e, lanes1, w2) \<Rightarrow>
               Inl (e, lane\<lparr> obstacleProducers := obstacleProducers lane1 \<rparr> # lanes1, w2)
           | Inr (newLanes, w2) \<Rightarrow> Inr (lane1 # newLanes, w2)))"

text \<open>
  \<open>Inr\<close> is the street returned; \<open>Inl\<close> is the error thrown, with the receiver street as
  the call left it.
\<close>

definition generateObstacles ::
  "Street \<Rightarrow> Player \<Rightarrow> real \<Rightarrow> real \<Rightarrow> Clock \<Rightarrow> World \<Rightarrow>
   (error \<times> Street \<times> World) + (Street \<times> World)" where
  "generateObstacles this player random1 random2 clk w =
     (let randomLaneIndex = \<lfloor>random1 * real (length (lanes this))\<rfloor>
      in case generateLanes this player randomLaneIndex random2 clk 0 (lanes this) w of
           Inl (e, lanes1, w1) \<Rightarrow> Inl (e, this\<lparr> lanes := lanes1 \<rparr>, w1)
         | Inr (newLanes, w1) \<Rightarrow> Inr (this\<lparr> lanes := newLanes \<rparr>, w1))"

text \<open>
  One producer over successive calls of the callback, as successive calls of
  \<open>generateObstacles\<close> make them. Each call has its own entity list, start position,
  chosen index, own index and lane, and comes after \<open>skipped\<close> clock readings taken by
  other code. A call has emitted when the lane it returns holds more obstacles than the
  lane it was given. The result lists the emissions in order, each as the reading at
  which the readiness was asked and the time that \<open>next\<close> stamped last. After a throw
  the next call finds the producer as it was.
\<close>

fun emitted ::
  "Clock \<Rightarrow> ObstacleProducer \<Rightarrow> World \<Rightarrow>
   (nat \<times> Entity list \<times> real \<times> int \<times> nat \<times> Lane) list \<Rightarrow> (int \<times> int) list" where
  "emitted clk producer w [] = []"
| "emitted clk producer w ((skipped, objects, x0, chosen, index, lane) # rest) =
     (let w0 = w\<lparr> clockReads := clockReads w + skipped \<rparr>
      in case produceOne clk objects x0 chosen index producer lane w0 of
           Inl (e, w1) \<Rightarrow> emitted clk producer w1 rest
         | Inr (producer1, lane1, w1) \<Rightarrow>
             if length (Lane.obstacles lane1) > length (Lane.obstacles lane)
             then (clk (clockReads w0), lastObstacleTime producer1) # emitted clk producer1 w1 rest
             else emitted clk producer1 w1 rest)"

subsection \<open>CrosswalkSign\<close>

definition getNotFlashinImage :: "string option" where
  "getNotFlashinImage = Some ''images/scene/crosswalk-sign.png''"

definition getFlashingImage :: "string option" where
  "getFlashingImage = Some ''images/scene/crosswalk-sign-flashing.png''"

definition getImageScale :: real where "getImageScale = 0.1"
definition getImageHeight :: real where "getImageHeight = 342 * getImageScale"
definition getImageWidth :: real where "getImageWidth = 389 * getImageScale"
definition getFlashIntervalInMilliseconds :: int where "getFlashIntervalInMilliseconds = 500"

definition new_CrosswalkSign ::
  "nat \<Rightarrow> real \<Rightarrow> real \<Rightarrow> LaneDirection \<Rightarrow> GameObject \<Rightarrow> bool \<Rightarrow> bool \<Rightarrow> int \<Rightarrow>
   string option \<Rightarrow> string option \<Rightarrow> CrosswalkSign" where
  "new_CrosswalkSign a x0 y0 d zone fl sq stamp notFlashingImg flashingImg =
     \<lparr> oid = a, x = x0, y = y0, width = getImageWidth, height = getImageHeight,
       image = (if fl then flashingImg else notFlashingImg),
       CrosswalkSign.direction = d, crosswalk = zone, flashing = fl, flashingSequence = sq,
       timestampOfPreviousFlash = stamp, notFlashingImage = notFlashingImg,
       flashingImage = flashingImg \<rparr>"

text \<open>\<open>flash\<close> reads the clock itself (\<open>stamp\<close>) and allocates the new sign at \<open>a\<close>.\<close>

definition flash :: "CrosswalkSign \<Rightarrow> bool \<Rightarrow> int \<Rightarrow> nat \<Rightarrow> CrosswalkSign" where
  "flash this sequence stamp a =
     new_CrosswalkSign a (x this) (y this) (CrosswalkSign.direction this) (crosswalk this)
       True sequence stamp (notFlashingImage this) (flashingImage this)"

text \<open>
  \<open>update\<close> reads the clock once for the test (\<open>now\<close>); the reading taken by \<open>flash\<close>
  is \<open>stamp\<close>. \<open>player && player.intersects(...)\<close> is false without a player.
\<close>

definition update :: "CrosswalkSign \<Rightarrow> Entity list \<Rightarrow> int \<Rightarrow> int \<Rightarrow> nat \<Rightarrow> CrosswalkSign" where
  "update this others now stamp a =
     (let player = findPlayer others
      in if flashing this \<or>
            (case player of None \<Rightarrow> False | Some p \<Rightarrow> intersects p (crosswalk this))
         then
           (let timeSinceLastFlash = now - timestampOfPreviousFlash this
            in if timeSinceLastFlash > getFlashIntervalInMilliseconds
               then flash this (\<not> flashingSequence this) stamp a
               else this)
         else this)"

fun updates :: "CrosswalkSign \<Rightarrow> (Entity list \<times> int \<times> int \<times> nat) list \<Rightarrow> CrosswalkSign" where
  "updates this [] = this"
| "updates this ((others, now, stamp, a) # rest) = updates (update this others now stamp a) rest"

section \<open>The braking rule in the words of the specification\<close>

text \<open>
  A hazard is counted when its vertical position lies within one obstacle-height of the
  obstacle and it is strictly ahead in the direction of travel. \<open>hazardsAhead\<close> lists
  the counted hazards as pairs (horizontal distance, speed): the other obstacles in
  list order, then the player with speed 0. The closest hazard is the one of least
  distance, the first of them in that order.
\<close>

definition countedAhead :: "Obstacle \<Rightarrow> real \<Rightarrow> real \<Rightarrow> bool" where
  "countedAhead this hx hy \<longleftrightarrow>
     \<bar>hy - y this\<bar> \<le> height this \<and>
     (if Obstacle.direction this = RIGHT then x this < hx else hx < x this)"

definition hazardsAhead :: "Obstacle \<Rightarrow> Player \<Rightarrow> Obstacle list \<Rightarrow> (real \<times> real) list" where
  "hazardsAhead this player obs =
     map (\<lambda>ob. (\<bar>x ob - x this\<bar>, speed ob))
       (filter (\<lambda>ob. oid ob \<noteq> oid this \<and> countedAhead this (x ob) (y ob)) obs) @
     (if countedAhead this (x player) (y player) then [(\<bar>x player - x this\<bar>, 0)] else [])"

definition closestHazard :: "Obstacle \<Rightarrow> Player \<Rightarrow> Obstacle list \<Rightarrow> (real \<times> real) option" where
  "closestHazard this player obs =
     (let hs = hazardsAhead this player obs
      in if hs = [] then None else Some (arg_min_list fst hs))"

definition otherEmergencyVehicle :: "Obstacle \<Rightarrow> Obstacle list \<Rightarrow> bool" where
  "otherEmergencyVehicle this obs =
     list_ex (\<lambda>ob. oid ob \<noteq> oid this \<and> emergencyVehicle ob) obs"

text \<open>
  The speed steps in their order. \<open>recover\<close> says whether the step that adds 0.25 is
  available at all: the claim has it always, the code only for a non-zero original speed.
\<close>

definition speedSteps :: "bool \<Rightarrow> real \<Rightarrow> real \<Rightarrow> bool \<Rightarrow> bool \<Rightarrow> bool \<Rightarrow> bool \<Rightarrow> real" where
  "speedSteps recover current original timed below200 below100 emergency =
     (let s1 = (if timed then current - 0.5 else current);
          s2 = (if below200 then s1 - 0.5 else s1);
          s3 = (if below100 \<or> emergency then s2 - 1
                else if recover \<and> s2 < original then s2 + 0.25 else s2)
      in max s3 0)"

definition timeToCollision :: "real \<Rightarrow> (real \<times> real) option \<Rightarrow> real option" where
  "timeToCollision current hazard =
     (case hazard of
        None \<Rightarrow> None
      | Some h \<Rightarrow> if current - snd h > 0 then Some (fst h / (current - snd h)) else None)"

definition distanceBelow :: "(real \<times> real) option \<Rightarrow> real \<Rightarrow> bool" where
  "distanceBelow hazard r = (case hazard of None \<Rightarrow> False | Some h \<Rightarrow> fst h < r)"

definition brakeSteps :: "bool \<Rightarrow> real \<Rightarrow> real \<Rightarrow> (real \<times> real) option \<Rightarrow> bool \<Rightarrow> real" where
  "brakeSteps recover current original hazard emergency =
     speedSteps recover current original
       (case timeToCollision current hazard of None \<Rightarrow> False | Some t \<Rightarrow> 0 < t \<and> t < 100)
       (distanceBelow hazard 200) (distanceBelow hazard 100) emergency"

definition claimedSpeed :: "Obstacle \<Rightarrow> Player \<Rightarrow> Obstacle list \<Rightarrow> real" where
  "claimedSpeed this player obs =
     brakeSteps True (speed this) (originalSpeed this) (closestHazard this player obs)
       (otherEmergencyVehicle this obs)"

text \<open>The same steps with the recovery step behind the guard \<open>this.originalSpeed &&\<close>.\<close>

definition guardedSpeed :: "Obstacle \<Rightarrow> Player \<Rightarrow> Obstacle list \<Rightarrow> real" where
  "guardedSpeed this player obs =
     brakeSteps (originalSpeed this \<noteq> 0) (speed this) (originalSpeed this)
       (closestHazard this player obs) (otherEmergencyVehicle this obs)"

text \<open>
  An obstacle of original speed 0 stands still. The original speed of an obstacle is the
  speed it was constructed with: the constructor's default sets it, and \<open>clone\<close> and
  \<open>moveObstacle\<close>, the only callers that pass it, pass it on.
\<close>

definition settled :: "Obstacle \<Rightarrow> bool" where
  "settled this \<longleftrightarrow> (originalSpeed this = 0 \<longrightarrow> speed this = 0)"

definition hazardDatum :: "Obstacle \<Rightarrow> Entity \<Rightarrow> real \<times> real" where
  "hazardDatum this e = (getDistanceTo this e, speedOrZero e)"

text \<open>Some counted hazard is nearer than \<open>r\<close>.\<close>

definition hazardWithin :: "Obstacle \<Rightarrow> Player \<Rightarrow> Obstacle list \<Rightarrow> real \<Rightarrow> bool" where
  "hazardWithin this player obs r = list_ex (\<lambda>h. fst h < r) (hazardsAhead this player obs)"

text \<open>
  The current speed is between 0 and the original speed, and both are whole multiples of
  0.25, as they are for an obstacle created at one of the \<open>ObstacleSpeeds\<close>.
\<close>

definition quarterGrid :: "Obstacle \<Rightarrow> bool" where
  "quarterGrid this \<longleftrightarrow>
     0 \<le> speed this \<and> speed this \<le> originalSpeed this \<and>
     4 * speed this \<in> \<int> \<and> 4 * originalSpeed this \<in> \<int>"

section \<open>The passing rule in the words of the specification\<close>

text \<open>
  The closest obstacle ahead: among the obstacles of the list that are counted as ahead
  (within one obstacle-height vertically, strictly ahead horizontally), the first of
  least horizontal distance.
\<close>

definition closestObstacleAhead :: "Obstacle \<Rightarrow> Obstacle list \<Rightarrow> Obstacle option" where
  "closestObstacleAhead this obs =
     (let ahead = filter (\<lambda>ob. countedAhead this (x ob) (y ob)) obs
      in if ahead = [] then None else Some (arg_min_list (\<lambda>ob. \<bar>x ob - x this\<bar>) ahead))"

section \<open>Leaving the street in the words of the specification\<close>

text \<open>
  An obstacle has left when, moving LEFT, its \<open>x + width\<close> is at most 0 or, moving RIGHT,
  its \<open>x\<close> is at least the street length.
\<close>

definition hasLeft :: "real \<Rightarrow> Obstacle \<Rightarrow> bool" where
  "hasLeft len ob \<longleftrightarrow>
     (case Obstacle.direction ob of
        LEFT \<Rightarrow> x ob + width ob \<le> 0
      | RIGHT \<Rightarrow> x ob \<ge> len)"

text \<open>The obstacles of the lane after every one of them has been advanced.\<close>

definition advanced :: "Lane \<Rightarrow> Player \<Rightarrow> Obstacle list \<Rightarrow> nat \<Rightarrow> Obstacle list" where
  "advanced this player allObstacles a =
     map (\<lambda>(i, ob). moveObstacle ob player allObstacles (a + 2 * i))
       (enumerate 0 (Lane.obstacles this))"

section \<open>The pedestrian signal in the words of the specification\<close>

text \<open>
  The player's box intersects the monitored crosswalk zone; without a player among the
  entities it does not.
\<close>

definition playerInCrosswalk :: "CrosswalkSign \<Rightarrow> Entity list \<Rightarrow> bool" where
  "playerInCrosswalk this others =
     (case findPlayer others of None \<Rightarrow> False | Some p \<Rightarrow> intersects p (crosswalk this))"

text \<open>
  The condition of a flip: as the claim states it, with at least 500 ms elapsed, and as
  the code has it, with more than 500 ms elapsed.
\<close>

definition claimedFlip :: "CrosswalkSign \<Rightarrow> Entity list \<Rightarrow> int \<Rightarrow> bool" where
  "claimedFlip this others now \<longleftrightarrow>
     (flashing this \<or> playerInCrosswalk this others) \<and>
     now - timestampOfPreviousFlash this \<ge> 500"

definition flips :: "CrosswalkSign \<Rightarrow> Entity list \<Rightarrow> int \<Rightarrow> bool" where
  "flips this others now \<longleftrightarrow>
     (flashing this \<or> playerInCrosswalk this others) \<and>
     now - timestampOfPreviousFlash this > 500"

section \<open>The producers in the words of the specification\<close>

text \<open>Any two emission times, the earlier before the later, are more than 1000 ms apart.\<close>

definition spaced :: "int list \<Rightarrow> bool" where
  "spaced es = sorted_wrt (\<lambda>earlier later. earlier + 1000 < later) es"

text \<open>The supplied entity set contains a player, or a pedestrian signal.\<close>

fun isPlayer :: "Entity \<Rightarrow> bool" where
  "isPlayer (PlayerE p) = True"
| "isPlayer _ = False"

fun isCrosswalkSign :: "Entity \<Rightarrow> bool" where
  "isCrosswalkSign (CrosswalkSignE s) = True"
| "isCrosswalkSign _ = False"

section \<open>Spawning in the words of the specification\<close>

text \<open>
  The candidate of attempt \<open>k\<close> (counted from 1): allocated \<open>k - 1\<close> addresses on, at the
  start position moved \<open>k - 1\<close> times by twice the obstacle width against the direction
  of the lane, or at the x of the template when the producer does not assign x.
\<close>

definition candidate :: "ObstacleProducer \<Rightarrow> Lane \<Rightarrow> real \<Rightarrow> World \<Rightarrow> nat \<Rightarrow> Obstacle" where
  "candidate producer lane x0 w k =
     clone (allocated w + (k - 1)) (template producer)
       (if assignX producer
        then x0 + real (k - 1) * (2 * width (template producer) * - directionValue (Lane.direction lane))
        else x (template producer))
       (y (template producer))"

text \<open>
  A producer as its class constructs it: the subclasses pass \<open>false\<close> for
  \<open>randomizeTraffic\<close>, and the crosswalk producer fixes frequency and x assignment.
  Only the last emission time differs later.
\<close>

definition constructed :: "ObstacleProducer \<Rightarrow> bool" where
  "constructed p =
     (case producerClass p of
        ObstacleProducerC \<Rightarrow> True
      | TargetObstacleProducerC target \<Rightarrow>
          p = (new_TargetObstacleProducer (template p) (maxFrequencyInSeconds p) (assignX p) target)
                \<lparr> lastObstacleTime := lastObstacleTime p \<rparr>
      | CrosswalkObstacleProducerC \<Rightarrow>
          p = (new_CrosswalkObstacleProducer (template p))
                \<lparr> lastObstacleTime := lastObstacleTime p \<rparr>)"

section \<open>Concrete inputs\<close>

definition w1_stopped :: Obstacle where
  "w1_stopped = new_Obstacle_defaults 1 0 100 20 10 0 RIGHT None BRAKE True False"

definition c1_player :: Player where
  "c1_player = \<lparr> oid = 0, x = 150, y = 100, width = 20, height = 20, image = None \<rparr>"

definition w1_this :: Obstacle where
  "w1_this = new_Obstacle 1 0 100 20 10 10 RIGHT None BRAKE True False 10 100"

definition c2_this :: Obstacle where
  "c2_this = new_Obstacle 1 0 100 20 10 4 RIGHT None BRAKE False False 4.125 100"

definition c2_reversing :: Obstacle where
  "c2_reversing = new_Obstacle 1 0 100 20 10 (-1) RIGHT None BRAKE False False 4 100"

definition c2_near :: Player where
  "c2_near = \<lparr> oid = 0, x = 50, y = 100, width = 20, height = 20, image = None \<rparr>"


definition w4_this :: Obstacle where
  "w4_this = new_Obstacle 1 0 100 20 10 10 RIGHT None BRAKE True True 10 100"

definition w4_other :: Obstacle where
  "w4_other = new_Obstacle 2 15 100 20 10 4 RIGHT None NONE False False 4 100"

definition w4_player :: Player where
  "w4_player = \<lparr> oid = 0, x = 300, y = 400, width = 20, height = 20, image = None \<rparr>"

definition p3_this :: Obstacle where
  "p3_this = new_Obstacle 1 0 100 20 10 10 RIGHT None PASS False False 10 100"
definition p3_slow :: Obstacle where
  "p3_slow = new_Obstacle 1 0 100 20 10 4 RIGHT None PASS False False 4 100"
definition p3_slow_out :: Obstacle where
  "p3_slow_out = new_Obstacle 1 0 92 20 10 4 RIGHT None PASS False False 4 100"
definition p3_crashing :: Obstacle where
  "p3_crashing = new_Obstacle 1 0 100 20 10 10 RIGHT None PASS True False 10 100"
definition p3_out :: Obstacle where
  "p3_out = new_Obstacle 1 0 80 20 10 10 RIGHT None PASS False False 10 100"
definition p3_flat :: Obstacle where
  "p3_flat = new_Obstacle 1 0 100 20 0 10 RIGHT None PASS False False 10 100"
definition p3_left :: Obstacle where
  "p3_left = new_Obstacle 1 500 100 20 10 10 LEFT None PASS False False 10 100"
definition p3_ahead :: "real \<Rightarrow> real \<Rightarrow> real \<Rightarrow> Obstacle" where
  "p3_ahead x0 y0 s = new_Obstacle 2 x0 y0 20 10 s RIGHT None NONE False False s y0"

definition w5_a :: Obstacle where
  "w5_a = new_Obstacle 1 595 100 20 10 10 RIGHT None NONE False False 10 100"

definition w5_b :: Obstacle where
  "w5_b = new_Obstacle 2 100 100 20 10 4 RIGHT None NONE False False 4 100"

definition w5_lane :: Lane where
  "w5_lane = \<lparr> Lane.direction = RIGHT, laneWidth = 120, Lane.streetLength = 600, centerY = 105,
       obstacleProducers = [], Lane.obstacles = [w5_a, w5_b] \<rparr>"

definition c5_wrongway :: Obstacle where
  "c5_wrongway = new_Obstacle 1 700 100 20 10 4 RIGHT None NONE False False 4 100"

definition c5_entering :: Obstacle where
  "c5_entering = new_Obstacle 2 (-50) 100 20 10 4 RIGHT None NONE False False 4 100"

definition c5_lane :: Lane where
  "c5_lane = \<lparr> Lane.direction = LEFT, laneWidth = 120, Lane.streetLength = 600, centerY = 105,
       obstacleProducers = [], Lane.obstacles = [c5_wrongway, c5_entering] \<rparr>"

definition c6_zone :: GameObject where
  "c6_zone = \<lparr> oid = 3, x = 280, y = 0, width = 40, height = 400, image = None \<rparr>"

definition c6_player :: Player where
  "c6_player = \<lparr> oid = 0, x = 290, y = 100, width = 20, height = 20, image = None \<rparr>"

definition c6_idle :: CrosswalkSign where
  "c6_idle = new_CrosswalkSign 5 300 20 RIGHT c6_zone False False 0
               getNotFlashinImage getFlashingImage"

definition c6_flashing :: CrosswalkSign where
  "c6_flashing = new_CrosswalkSign 5 300 20 RIGHT c6_zone True False 0
                   getNotFlashinImage getFlashingImage"

definition w7_template :: Obstacle where
  "w7_template = new_Obstacle 1 0 100 20 10 10 RIGHT None BRAKE True False 10 100"

definition w7_producer :: ObstacleProducer where
  "w7_producer = new_ObstacleProducer w7_template 1 True True"

definition w8_target :: ObstacleProducer where
  "w8_target = new_TargetObstacleProducer w7_template 1 True c6_zone"

definition w8_crosswalk :: ObstacleProducer where
  "w8_crosswalk = new_CrosswalkObstacleProducer w7_template"

definition w9_blocker :: "nat \<Rightarrow> real \<Rightarrow> Obstacle" where
  "w9_blocker a x0 = new_Obstacle a x0 100 20 10 0 RIGHT None NONE False False 0 100"

definition w9_lane :: Lane where
  "w9_lane = \<lparr> Lane.direction = RIGHT, laneWidth = 120, Lane.streetLength = 600, centerY = 105,
       obstacleProducers = [w7_producer],
       Lane.obstacles = [w9_blocker 2 (-50), w9_blocker 3 (-90), w9_blocker 4 (-130)] \<rparr>"

definition w9_street :: Street where
  "w9_street = \<lparr> topOfStreetY = 0, Street.streetLength = 600, lanes = [w9_lane],
       sceneObjects = [] \<rparr>"

definition w9_objects :: "Entity list" where
  "w9_objects = map ObstacleE (Lane.obstacles w9_lane) @ sceneObjects w9_street @ [PlayerE w4_player]"

definition w9_clock :: Clock where
  "w9_clock k = 5000 + int k"

definition w9_world :: World where
  "w9_world = \<lparr> allocated = 20, clockReads = 0 \<rparr>"

definition w7_lane :: Lane where
  "w7_lane = \<lparr> Lane.direction = RIGHT, laneWidth = 120, Lane.streetLength = 600, centerY = 105,
       obstacleProducers = [w7_producer], Lane.obstacles = [] \<rparr>"

definition w7_street :: Street where
  "w7_street = \<lparr> topOfStreetY = 0, Street.streetLength = 600, lanes = [w7_lane],
       sceneObjects = [] \<rparr>"

definition w7_street_emitted :: Street where
  "w7_street_emitted = w7_street\<lparr> lanes :=
     [w7_lane\<lparr> Lane.obstacles := [clone 20 w7_template (-50) 100],
              obstacleProducers := [w7_producer\<lparr> lastObstacleTime := 1401 \<rparr>] \<rparr>] \<rparr>"

definition w7_clock :: Clock where
  "w7_clock k = 1001 + 400 * int k"

definition w7_calls :: "(nat \<times> Entity list \<times> real \<times> int \<times> nat \<times> Lane) list" where
  "w7_calls =
     [(0, [PlayerE w4_player], -50, 0, 0, w7_lane),
      (0, [PlayerE w4_player], -50, 0, 0, w7_lane),
      (1, [PlayerE w4_player], -50, 1, 0, w7_lane),
      (0, w9_objects, -50, 0, 0, w9_lane),
      (0, [PlayerE w4_player], -50, 0, 0, w7_lane)]"

definition e9_lane :: Lane where
  "e9_lane = \<lparr> Lane.direction = RIGHT, laneWidth = 120, Lane.streetLength = 600, centerY = 105,
       obstacleProducers = [w7_producer, w8_crosswalk], Lane.obstacles = [] \<rparr>"

definition e9_street :: Street where
  "e9_street = \<lparr> topOfStreetY = 0, Street.streetLength = 600, lanes = [e9_lane],
       sceneObjects = [] \<rparr>"

definition e9_clock :: Clock where
  "e9_clock k = 100000001 + int k"

section \<open>Crashing (Obstacle.moveObstacle)\<close>

lemma collisionDetected_iff:
  "collisionDetected this obs \<longleftrightarrow>
     (\<exists>other \<in> set obs. oid other \<noteq> oid this \<and> intersects this other)"
  by (auto simp: collisionDetected_def list_ex_iff)

text \<open>
  A stopped obstacle without avoidance and without collision detection is returned
  field by field as it is; only the address of the snapshot is new.
\<close>

lemma wreck_fixpoint:
  assumes "avoidance c = NONE" "\<not> detectCollisions c" "speed c = 0"
  shows "moveObstacle c player obs a = c\<lparr>oid := Suc a\<rparr>"
  using assms
  by (simp add: moveObstacle_def calculateSpeed_def calculateYForPassing_def new_Obstacle_def)

lemma wreck_ticks:
  assumes "avoidance c = NONE" "\<not> detectCollisions c" "speed c = 0"
  shows "(ticks c rest)\<lparr>oid := oid c\<rparr> = c"
  using assms
proof (induction rest arbitrary: c)
  case Nil
  then show ?case by simp
next
  case (Cons env rest)
  obtain player obs a where env: "env = (player, obs, a)"
    by (cases env) auto
  let ?c' = "c\<lparr>oid := Suc a\<rparr>"
  have step: "moveObstacle c player obs a = ?c'"
    using Cons.prems by (rule wreck_fixpoint)
  have "(ticks ?c' rest)\<lparr>oid := oid ?c'\<rparr> = ?c'"
    using Cons.prems by (intro Cons.IH) simp_all
  then have "((ticks ?c' rest)\<lparr>oid := oid ?c'\<rparr>)\<lparr>oid := oid c\<rparr> = ?c'\<lparr>oid := oid c\<rparr>"
    by simp
  then show ?case
    by (simp add: env step)
qed

text \<open>
  Claim C4. An obstacle with \<open>detectCollisions\<close> true whose box overlaps another obstacle
  of the list it is advanced against is returned as the crashed variant: speed 0,
  \<open>detectCollisions\<close> false, \<open>emergencyVehicle\<close> false, avoidance NONE, position and size
  unchanged, original speed and original y preserved. After any further ticks \<open>rest\<close>,
  against any obstacle list \<open>later\<close>, it does not satisfy the crash condition again, and
  it is the same snapshot up to the address of the object.
\<close>

theorem moveObstacle_crashed:
  assumes "detectCollisions this"
    and "other \<in> set obs" and "oid other \<noteq> oid this" and "intersects this other"
  shows "let c = moveObstacle this player obs a; c' = ticks c rest in
     speed c = 0 \<and> \<not> detectCollisions c \<and> \<not> emergencyVehicle c \<and> avoidance c = NONE \<and>
     x c = x this \<and> y c = y this \<and> width c = width this \<and> height c = height this \<and>
     originalSpeed c = originalSpeed this \<and> originalY c = originalY this \<and>
     \<not> (detectCollisions c' \<and> collisionDetected c' later) \<and>
     c'\<lparr>oid := oid c\<rparr> = c"
proof -
  have hit: "collisionDetected this obs"
    using assms by (auto simp: collisionDetected_iff)
  define c where "c = moveObstacle this player obs a"
  have c: "c = new_Obstacle (Suc a) (x this) (y this) (width this) (height this) STOPPED
             (Obstacle.direction this) getCrashedImage NONE False False
             (originalSpeed this) (originalY this)"
    using assms(1) hit by (simp add: c_def moveObstacle_def)
  have fields: "speed c = 0" "\<not> detectCollisions c" "\<not> emergencyVehicle c" "avoidance c = NONE"
     "x c = x this" "y c = y this" "width c = width this" "height c = height this"
     "originalSpeed c = originalSpeed this" "originalY c = originalY this"
    by (simp_all add: c new_Obstacle_def STOPPED_def)
  have perm: "(ticks c rest)\<lparr>oid := oid c\<rparr> = c"
    using fields by (intro wreck_ticks) simp_all
  then have "detectCollisions ((ticks c rest)\<lparr>oid := oid c\<rparr>) = detectCollisions c"
    by simp
  then have nd: "\<not> detectCollisions (ticks c rest)"
    using fields by simp
  show ?thesis
    unfolding Let_def c_def[symmetric]
    using fields perm nd by simp
qed

theorem moveObstacle_crashed_witness:
  "detectCollisions w4_this \<and> w4_other \<in> set [w4_this, w4_other] \<and>
   oid w4_other \<noteq> oid w4_this \<and> intersects w4_this w4_other \<and>
   (let c = moveObstacle w4_this w4_player [w4_this, w4_other] 10;
        c' = ticks c [(w4_player, [w4_this, w4_other], 20), (w4_player, [w4_other], 30)] in
     speed c = 0 \<and> \<not> detectCollisions c \<and> \<not> emergencyVehicle c \<and> avoidance c = NONE \<and>
     x c = x w4_this \<and> y c = y w4_this \<and> width c = width w4_this \<and> height c = height w4_this \<and>
     originalSpeed c = originalSpeed w4_this \<and> originalY c = originalY w4_this \<and>
     \<not> (detectCollisions c' \<and> collisionDetected c' [w4_this, w4_other]) \<and>
     c'\<lparr>oid := oid c\<rparr> = c)"
proof -
  have h1: "detectCollisions w4_this" by (simp add: w4_this_def new_Obstacle_def)
  have h2: "w4_other \<in> set [w4_this, w4_other]" by simp
  have h3: "oid w4_other \<noteq> oid w4_this" by (simp add: w4_this_def w4_other_def new_Obstacle_def)
  have h4: "intersects w4_this w4_other"
    by (simp add: intersects_def w4_this_def w4_other_def new_Obstacle_def)
  show ?thesis
    using h1 h2 h3 h4 moveObstacle_crashed [OF h1 h2 h3 h4] by blast
qed

section \<open>The closest object ahead (Obstacle.getClosestObject)\<close>

lemma arg_min_list_le_head: "f (arg_min_list f (g # F)) \<le> f g"
  for f :: "'a \<Rightarrow> real"
  using f_arg_min_list_f [of "g # F" f] by simp

lemma arg_min_list_drop_head:
  fixes f :: "'a \<Rightarrow> real"
  assumes "f g < f h"
  shows "arg_min_list f (h # g # F) = arg_min_list f (g # F)"
  using assms arg_min_list_le_head [of f g F] by (simp add: Let_def)

lemma arg_min_list_skip:
  fixes f :: "'a \<Rightarrow> real"
  assumes "f h \<le> f g"
  shows "arg_min_list f (h # g # F) = arg_min_list f (h # F)"
  using assms by (cases F) (auto simp: Let_def)

lemma foldl_closest_Some:
  "fst (foldl (closestStep this) (Some h, Num (getDistanceTo this h)) gs) =
     Some (arg_min_list (getDistanceTo this) (h # filter (isObjectInFront this) gs))"
proof (induction gs arbitrary: h)
  case Nil
  show ?case by simp
next
  case (Cons g gs)
  show ?case
  proof (cases "isObjectInFront this g")
    case False
    then show ?thesis using Cons.IH [of h] by (simp add: closestStep_def)
  next
    case front: True
    show ?thesis
    proof (cases "getDistanceTo this g < getDistanceTo this h")
      case True
      then have "closestStep this (Some h, Num (getDistanceTo this h)) g =
                   (Some g, Num (getDistanceTo this g))"
        using front by (simp add: closestStep_def getDistanceTo_def)
      then show ?thesis
        using Cons.IH [of g] front True
        by (simp add: arg_min_list_drop_head del: arg_min_list.simps)
    next
      case False
      then have "closestStep this (Some h, Num (getDistanceTo this h)) g =
                   (Some h, Num (getDistanceTo this h))"
        using front by (simp add: closestStep_def getDistanceTo_def)
      moreover have "getDistanceTo this h \<le> getDistanceTo this g"
        using False by simp
      ultimately show ?thesis
        using Cons.IH [of h] front
        by (simp add: arg_min_list_skip del: arg_min_list.simps)
    qed
  qed
qed

lemma getClosestObject_arg_min:
  "getClosestObject this gs =
     (let fs = filter (isObjectInFront this) gs
      in if fs = [] then None else Some (arg_min_list (getDistanceTo this) fs))"
proof -
  have "fst (foldl (closestStep this) (None, Infinity) gs) =
     (if filter (isObjectInFront this) gs = [] then None
      else Some (arg_min_list (getDistanceTo this) (filter (isObjectInFront this) gs)))"
  proof (induction gs)
    case Nil
    show ?case by simp
  next
    case (Cons g gs)
    show ?case
    proof (cases "isObjectInFront this g")
      case False
      then show ?thesis using Cons.IH by (simp add: closestStep_def)
    next
      case True
      then have "closestStep this (None, Infinity) g = (Some g, Num (getDistanceTo this g))"
        by (simp add: closestStep_def getDistanceTo_def)
      then show ?thesis
        using True foldl_closest_Some [of this g gs] by simp
    qed
  qed
  then show ?thesis by (simp add: getClosestObject_def Let_def)
qed

lemma arg_min_list_map:
  fixes f :: "'b \<Rightarrow> real"
  assumes "xs \<noteq> []"
  shows "arg_min_list f (map g xs) = g (arg_min_list (f \<circ> g) xs)"
  using assms
proof (induction xs rule: induct_list012)
  case 1 then show ?case by simp
next
  case (2 a) show ?case by simp
next
  case (3 a b zs)
  then show ?case by (simp add: Let_def)
qed

lemma isObjectInFront_counted:
  "isObjectInFront this e = countedAhead this (entityX e) (entityY e)"
  by (cases "Obstacle.direction this")
     (auto simp: isObjectInFront_def countedAhead_def Let_def abs_le_iff)

lemma hazards_front_data:
  "map (hazardDatum this) (filter (isObjectInFront this) (hazards this player obs)) =
     hazardsAhead this player obs"
proof -
  have a: "map (hazardDatum this)
             (filter (\<lambda>g. \<not> identical g this \<and> isObjectInFront this g) (map ObstacleE os)) =
           map (\<lambda>ob. (\<bar>x ob - x this\<bar>, speed ob))
             (filter (\<lambda>ob. oid ob \<noteq> oid this \<and> countedAhead this (x ob) (y ob)) os)" for os
    by (induction os)
       (auto simp: hazardDatum_def getDistanceTo_def isObjectInFront_counted abs_minus_commute)
  have b: "filter (isObjectInFront this) (hazards this player obs) =
           filter (\<lambda>g. \<not> identical g this \<and> isObjectInFront this g) (map ObstacleE obs) @
           (if isObjectInFront this (PlayerE player) then [PlayerE player] else [])"
    by (simp add: hazards_def)
  show ?thesis
    unfolding b hazardsAhead_def map_append a
    by (simp add: hazardDatum_def getDistanceTo_def isObjectInFront_counted abs_minus_commute)
qed

lemma closest_data:
  "map_option (hazardDatum this) (getClosestObject this (hazards this player obs)) =
     closestHazard this player obs"
proof -
  let ?fs = "filter (isObjectInFront this) (hazards this player obs)"
  have eq: "map (hazardDatum this) ?fs = hazardsAhead this player obs"
    by (rule hazards_front_data)
  show ?thesis
  proof (cases "?fs = []")
    case True
    then show ?thesis
      using eq by (simp add: getClosestObject_arg_min closestHazard_def Let_def)
  next
    case False
    have comp: "fst \<circ> hazardDatum this = getDistanceTo this"
      by (auto simp: hazardDatum_def)
    have "arg_min_list fst (map (hazardDatum this) ?fs) =
            hazardDatum this (arg_min_list (getDistanceTo this) ?fs)"
      using arg_min_list_map [OF False, of fst "hazardDatum this"] by (simp add: comp)
    moreover have "hazardsAhead this player obs \<noteq> []"
      using False eq by (metis map_is_Nil_conv)
    ultimately show ?thesis
      using False eq by (simp add: getClosestObject_arg_min closestHazard_def Let_def)
  qed
qed

lemma emergency_eq:
  "emergencyVehicleDetected this obs = otherEmergencyVehicle this obs"
  by (simp add: emergencyVehicleDetected_def otherEmergencyVehicle_def list_ex_iff) auto

lemma calculateSpeed_steps:
  assumes "avoidance this = BRAKE"
  shows "calculateSpeed this player obs =
     speedSteps (originalSpeed this \<noteq> 0) (speed this) (originalSpeed this)
       (inBrakingWindow (calculateTimeToCollision this (hazards this player obs)))
       (lessThan_Number (calculateDistanceToClosestObject this (hazards this player obs)) (Num 200))
       (lessThan_Number (calculateDistanceToClosestObject this (hazards this player obs)) (Num 100))
       (otherEmergencyVehicle this obs)"
  using assms by (simp add: calculateSpeed_def speedSteps_def emergency_eq Let_def)

lemma closest_None:
  assumes "getClosestObject this (hazards this player obs) = None"
  shows "closestHazard this player obs = None"
    and "inBrakingWindow (calculateTimeToCollision this (hazards this player obs)) = False"
    and "calculateDistanceToClosestObject this (hazards this player obs) = Infinity"
  using assms closest_data [of this player obs]
  by (simp_all add: calculateTimeToCollision_def calculateDistanceToClosestObject_def
      inBrakingWindow_def)

lemma closest_Some:
  assumes "getClosestObject this (hazards this player obs) = Some e"
  shows "closestHazard this player obs = Some (getDistanceTo this e, speedOrZero e)"
    and "inBrakingWindow (calculateTimeToCollision this (hazards this player obs)) =
           (case timeToCollision (speed this) (Some (getDistanceTo this e, speedOrZero e)) of
              None \<Rightarrow> False | Some t \<Rightarrow> 0 < t \<and> t < 100)"
    and "calculateDistanceToClosestObject this (hazards this player obs) =
           Num (getDistanceTo this e)"
proof -
  show "closestHazard this player obs = Some (getDistanceTo this e, speedOrZero e)"
    using assms closest_data [of this player obs] by (simp add: hazardDatum_def)
  show "inBrakingWindow (calculateTimeToCollision this (hazards this player obs)) =
           (case timeToCollision (speed this) (Some (getDistanceTo this e, speedOrZero e)) of
              None \<Rightarrow> False | Some t \<Rightarrow> 0 < t \<and> t < 100)"
    using assms
    by (auto simp: calculateTimeToCollision_def inBrakingWindow_def timeToCollision_def Let_def)
  show "calculateDistanceToClosestObject this (hazards this player obs) =
           Num (getDistanceTo this e)"
    using assms by (simp add: calculateDistanceToClosestObject_def)
qed

lemma calculateSpeed_guarded:
  assumes "avoidance this = BRAKE"
  shows "calculateSpeed this player obs = guardedSpeed this player obs"
proof (cases "getClosestObject this (hazards this player obs)")
  case None
  show ?thesis
    by (simp add: calculateSpeed_steps [OF assms] guardedSpeed_def brakeSteps_def
        closest_None [OF None] timeToCollision_def distanceBelow_def)
next
  case (Some e)
  show ?thesis
    by (simp add: calculateSpeed_steps [OF assms] guardedSpeed_def brakeSteps_def
        closest_Some [OF Some] distanceBelow_def)
qed

section \<open>Braking (Obstacle.calculateSpeed)\<close>

lemma moveObstacle_speed:
  assumes "\<not> (detectCollisions this \<and> collisionDetected this obs)"
  shows "speed (moveObstacle this player obs a) = calculateSpeed this player obs"
  using assms by (auto simp: moveObstacle_def new_Obstacle_def Let_def)

lemma speedSteps_stopped:
  "speedSteps False 0 0 t b2 b1 em = 0" "speedSteps True 0 0 t b2 b1 em = 0"
  by (auto simp: speedSteps_def Let_def max_def)

lemma claimed_guarded:
  assumes "settled this"
  shows "claimedSpeed this player obs = guardedSpeed this player obs"
proof (cases "originalSpeed this = 0")
  case True
  then have "speed this = 0"
    using assms by (simp add: settled_def)
  then show ?thesis
    using True by (simp add: claimedSpeed_def guardedSpeed_def brakeSteps_def speedSteps_stopped)
next
  case False
  then show ?thesis
    by (simp add: claimedSpeed_def guardedSpeed_def)
qed

lemma settled_new: "settled (new_Obstacle_defaults a0 x0 y0 w h s d img av dc ev)"
  by (simp add: settled_def new_Obstacle_defaults_def new_Obstacle_def)

lemma settled_clone:
  assumes "settled this"
  shows "settled (clone a1 this x1 y1)"
  using assms by (simp add: settled_def clone_def new_Obstacle_def)

lemma settled_moveObstacle:
  assumes "settled this"
  shows "settled (moveObstacle this player obs a)"
proof (cases "detectCollisions this \<and> collisionDetected this obs")
  case True
  then show ?thesis
    by (simp add: settled_def moveObstacle_def new_Obstacle_def STOPPED_def)
next
  case False
  have orig: "originalSpeed (moveObstacle this player obs a) = originalSpeed this"
    by (simp add: moveObstacle_def new_Obstacle_def Let_def)
  show ?thesis
  proof (cases "avoidance this = BRAKE")
    case True
    have "speed (moveObstacle this player obs a) = 0" if "originalSpeed this = 0"
    proof -
      have "speed this = 0"
        using assms that by (simp add: settled_def)
      then show ?thesis
        using that False
        by (simp add: moveObstacle_speed calculateSpeed_guarded [OF True] guardedSpeed_def
            brakeSteps_def speedSteps_stopped)
    qed
    then show ?thesis
      by (simp add: settled_def orig)
  next
    case notBrake: False
    then have "speed (moveObstacle this player obs a) = speed this"
      using False by (simp add: moveObstacle_speed calculateSpeed_def)
    then show ?thesis
      using assms by (simp add: settled_def orig)
  qed
qed

lemma settled_ticks:
  assumes "settled this"
  shows "settled (ticks this envs)"
  using assms
proof (induction envs arbitrary: this)
  case Nil
  then show ?case by simp
next
  case (Cons env envs)
  obtain player obs a where env: "env = (player, obs, a)"
    by (cases env) auto
  show ?case
    using Cons.IH [OF settled_moveObstacle [OF Cons.prems, of player obs a]]
    by (simp add: env)
qed

lemma w1_hazards: "hazardsAhead w1_this c1_player [w1_this] = [(150, 0)]"
  by (simp add: hazardsAhead_def countedAhead_def w1_this_def c1_player_def new_Obstacle_def)

lemma w1_claimed: "claimedSpeed w1_this c1_player [w1_this] = 9.25"
proof -
  have "closestHazard w1_this c1_player [w1_this] = Some (150, 0)"
    by (simp add: closestHazard_def w1_hazards)
  then show ?thesis
    by (simp add: claimedSpeed_def brakeSteps_def speedSteps_def timeToCollision_def
        distanceBelow_def otherEmergencyVehicle_def w1_this_def new_Obstacle_def)
qed

lemma w1_stopped_hazards: "hazardsAhead w1_stopped c1_player [w1_stopped] = [(150, 0)]"
  by (simp add: hazardsAhead_def countedAhead_def w1_stopped_def c1_player_def
      new_Obstacle_defaults_def new_Obstacle_def)

lemma w1_stopped_claimed: "claimedSpeed w1_stopped c1_player [w1_stopped] = 0"
proof -
  have "closestHazard w1_stopped c1_player [w1_stopped] = Some (150, 0)"
    by (simp add: closestHazard_def w1_stopped_hazards)
  then show ?thesis
    by (simp add: claimedSpeed_def brakeSteps_def speedSteps_def timeToCollision_def
        distanceBelow_def otherEmergencyVehicle_def w1_stopped_def new_Obstacle_defaults_def
        new_Obstacle_def)
qed

text \<open>
  Claim C1. For a BRAKE obstacle that does not crash this tick, the speed of the snapshot
  \<open>moveObstacle\<close> returns is the current speed after these steps in order: minus 0.5 if
  the time to collision with the closest counted hazard is strictly between 0 and 100
  (distance over own speed minus hazard speed, the player at speed 0, no time when that
  difference is not positive); minus 0.5 if the distance to it is below 200; minus 1 if
  that distance is below 100 or another obstacle of the list is an emergency vehicle,
  otherwise plus 0.25 if the running speed is below the original speed; then the
  maximum with 0.

  This is for the obstacles of the program, which are \<open>settled\<close>: an obstacle constructed
  with the default original speed is, and every \<open>clone\<close> of a settled obstacle and every
  snapshot that ticks of \<open>moveObstacle\<close> return for it is again. The code writes the last
  condition
  \<open>this.originalSpeed && newSpeed < this.originalSpeed\<close>; lemma
  \<open>calculateSpeed_guarded\<close> gives the steps with that guard for every BRAKE obstacle, also
  one constructed with an explicit original speed 0 against another speed, which no
  call in the source does.
\<close>

theorem moveObstacle_brake_speed:
  assumes "settled this"
  shows "settled (new_Obstacle_defaults a0 x0 y0 w h s d img av dc ev) \<and>
         settled (clone a1 this x1 y1) \<and>
         settled (moveObstacle this player obs a) \<and>
         settled (ticks this envs) \<and>
         (avoidance this = BRAKE \<and> \<not> (detectCollisions this \<and> collisionDetected this obs) \<longrightarrow>
            speed (moveObstacle this player obs a) = claimedSpeed this player obs)"
proof -
  have "speed (moveObstacle this player obs a) = claimedSpeed this player obs"
    if "avoidance this = BRAKE" "\<not> (detectCollisions this \<and> collisionDetected this obs)"
    using that
    by (simp add: moveObstacle_speed calculateSpeed_guarded claimed_guarded [OF assms])
  then show ?thesis
    using settled_new [of a0 x0 y0 w h s d img av dc ev] settled_clone [OF assms, of a1 x1 y1]
      settled_moveObstacle [OF assms, of player obs a] settled_ticks [OF assms, of envs]
    by blast
qed

theorem moveObstacle_brake_speed_witness:
  "settled w1_this \<and> avoidance w1_this = BRAKE \<and>
   \<not> (detectCollisions w1_this \<and> collisionDetected w1_this [w1_this]) \<and>
   speed (moveObstacle w1_this c1_player [w1_this] 10) = claimedSpeed w1_this c1_player [w1_this] \<and>
   claimedSpeed w1_this c1_player [w1_this] = 9.25 \<and>
   settled (moveObstacle w1_this c1_player [w1_this] 10) \<and>
   settled w1_stopped \<and> originalSpeed w1_stopped = 0 \<and> avoidance w1_stopped = BRAKE \<and>
   \<not> (detectCollisions w1_stopped \<and> collisionDetected w1_stopped [w1_stopped]) \<and>
   speed (moveObstacle w1_stopped c1_player [w1_stopped] 10) =
     claimedSpeed w1_stopped c1_player [w1_stopped] \<and>
   claimedSpeed w1_stopped c1_player [w1_stopped] = 0"
proof -
  have s1: "settled w1_this"
    by (simp add: settled_def w1_this_def new_Obstacle_def)
  have h1: "avoidance w1_this = BRAKE"
    by (simp add: w1_this_def new_Obstacle_def)
  have h2: "\<not> (detectCollisions w1_this \<and> collisionDetected w1_this [w1_this])"
    by (simp add: collisionDetected_def)
  have s2: "settled w1_stopped"
    by (simp add: settled_def w1_stopped_def new_Obstacle_defaults_def new_Obstacle_def)
  have g1: "originalSpeed w1_stopped = 0" "avoidance w1_stopped = BRAKE"
    by (simp_all add: w1_stopped_def new_Obstacle_defaults_def new_Obstacle_def)
  have g2: "\<not> (detectCollisions w1_stopped \<and> collisionDetected w1_stopped [w1_stopped])"
    by (simp add: collisionDetected_def)
  have t1: "settled (moveObstacle w1_this c1_player [w1_this] 10)"
    "speed (moveObstacle w1_this c1_player [w1_this] 10) = claimedSpeed w1_this c1_player [w1_this]"
    using h1 h2 moveObstacle_brake_speed [OF s1, of 0 0 0 0 0 0 RIGHT None NONE False False
        0 0 0 c1_player "[w1_this]" 10 "[]"]
    by blast+
  have t2: "speed (moveObstacle w1_stopped c1_player [w1_stopped] 10) =
              claimedSpeed w1_stopped c1_player [w1_stopped]"
    using g1 g2 moveObstacle_brake_speed [OF s2, of 0 0 0 0 0 0 RIGHT None NONE False False
        0 0 0 c1_player "[w1_stopped]" 10 "[]"]
    by blast
  show ?thesis
    using s1 h1 h2 s2 g1 g2 w1_claimed w1_stopped_claimed t1 t2 by (intro conjI)
qed

section \<open>Braking over successive ticks\<close>

lemma hazardWithin_closest:
  "hazardWithin this player obs r = distanceBelow (closestHazard this player obs) r"
proof (cases "hazardsAhead this player obs = []")
  case True
  then show ?thesis by (simp add: hazardWithin_def closestHazard_def distanceBelow_def)
next
  case False
  have "fst (arg_min_list fst (hazardsAhead this player obs)) =
          Min (fst ` set (hazardsAhead this player obs))"
    using False by (rule f_arg_min_list_f)
  moreover have "Min (fst ` set (hazardsAhead this player obs)) < r \<longleftrightarrow>
          (\<exists>h \<in> set (hazardsAhead this player obs). fst h < r)"
    using False by (subst Min_less_iff) auto
  ultimately show ?thesis
    using False by (simp add: hazardWithin_def closestHazard_def distanceBelow_def list_ex_iff)
qed

lemma distanceBelow_mono:
  assumes "distanceBelow hz r" and "r \<le> r'"
  shows "distanceBelow hz r'"
  using assms by (cases hz) (auto simp: distanceBelow_def)

lemma speedSteps_shape:
  "\<exists>s2. (s2 = cur \<or> s2 = cur - 1/2 \<or> s2 = cur - 1) \<and>
        (speedSteps r cur orig t b2 b1 em = max (s2 - 1) 0 \<or>
         speedSteps r cur orig t b2 b1 em = max s2 0 \<or>
         (s2 < orig \<and> speedSteps r cur orig t b2 b1 em = max (s2 + 1/4) 0))"
proof -
  define s2 where "s2 = (if b2 then (if t then cur - 1/2 else cur) - 1/2
                         else (if t then cur - 1/2 else cur))"
  have a: "s2 = cur \<or> s2 = cur - 1/2 \<or> s2 = cur - 1"
    by (cases t; cases b2; simp add: s2_def)
  have b: "speedSteps r cur orig t b2 b1 em =
             max (if b1 \<or> em then s2 - 1
                  else if r \<and> s2 < orig then s2 + 1/4 else s2) 0"
    by (simp add: speedSteps_def s2_def Let_def)
  have "speedSteps r cur orig t b2 b1 em = max (s2 - 1) 0 \<or>
        speedSteps r cur orig t b2 b1 em = max s2 0 \<or>
        (s2 < orig \<and> speedSteps r cur orig t b2 b1 em = max (s2 + 1/4) 0)"
    unfolding b by (cases "b1 \<or> em"; cases "r \<and> s2 < orig"; simp)
  with a show ?thesis by blast
qed

lemma speedSteps_nonneg: "0 \<le> speedSteps r cur orig t b2 b1 em"
  by (simp add: speedSteps_def Let_def)

lemma speedSteps_near:
  assumes "0 \<le> cur"
  shows "speedSteps r cur orig t True True em \<le> cur"
  using assms by (cases t) (auto simp: speedSteps_def Let_def max_def)

lemma speedSteps_far:
  assumes "0 \<le> cur"
  shows "speedSteps r cur orig t False False em \<le> cur + 1/4"
  using assms by (cases t; cases em; cases r) (auto simp: speedSteps_def Let_def max_def)

lemma speedSteps_far_original:
  assumes "0 \<le> cur" and "cur \<le> orig"
  shows "speedSteps r cur orig t False False em < orig + 1/4"
  using assms by (cases t; cases em; cases r) (auto simp: speedSteps_def Let_def max_def)

lemma speedSteps_grid:
  assumes "0 \<le> cur" and "cur \<le> orig" and "4 * cur \<in> \<int>" and "4 * orig \<in> \<int>"
  shows "0 \<le> speedSteps r cur orig t b2 b1 em \<and> speedSteps r cur orig t b2 b1 em \<le> orig \<and>
         4 * speedSteps r cur orig t b2 b1 em \<in> \<int>"
proof -
  let ?b = "speedSteps r cur orig t b2 b1 em"
  obtain m :: int where m: "4 * cur = of_int m"
    using assms(3) by (rule Ints_cases)
  obtain n :: int where n: "4 * orig = of_int n"
    using assms(4) by (rule Ints_cases)
  obtain s2 where s2: "s2 = cur \<or> s2 = cur - 1/2 \<or> s2 = cur - 1"
    and b: "?b = max (s2 - 1) 0 \<or> ?b = max s2 0 \<or> (s2 < orig \<and> ?b = max (s2 + 1/4) 0)"
    using speedSteps_shape [of cur r orig t b2 b1 em] by blast
  obtain k :: int where k: "4 * s2 = of_int k"
  proof -
    from s2 consider "s2 = cur" | "s2 = cur - 1/2" | "s2 = cur - 1" by blast
    then show ?thesis
    proof cases
      case 1 then show ?thesis using m that [of m] by simp
    next
      case 2 then have "4 * s2 = of_int (m - 2)" using m by simp
      then show ?thesis using that by blast
    next
      case 3 then have "4 * s2 = of_int (m - 4)" using m by simp
      then show ?thesis using that by blast
    qed
  qed
  have le: "s2 \<le> cur" using s2 by auto
  have inc: "s2 + 1/4 \<le> orig" if "s2 < orig"
  proof -
    have "(of_int k :: real) < of_int n" using that k n by linarith
    then have "k + 1 \<le> n" by simp
    then have "(of_int (k + 1) :: real) \<le> of_int n" by (simp only: of_int_le_iff)
    then show ?thesis using k n by simp
  qed
  have i1: "4 * (s2 - 1) \<in> \<int>"
  proof -
    have "4 * (s2 - 1) = of_int (k - 4)" using k by simp
    then show ?thesis by (simp only: Ints_of_int)
  qed
  have i2: "4 * s2 \<in> \<int>" using k by (simp only: Ints_of_int)
  have i3: "4 * (s2 + 1/4) \<in> \<int>"
  proof -
    have "4 * (s2 + 1/4) = of_int (k + 1)" using k by simp
    then show ?thesis by (simp only: Ints_of_int)
  qed
  have mx: "0 \<le> max v 0 \<and> max v 0 \<le> orig \<and> 4 * max v 0 \<in> \<int>"
    if "v \<le> orig" "4 * v \<in> \<int>" for v :: real
  proof (cases "v \<le> 0")
    case True
    then have "max v 0 = 0" by simp
    then show ?thesis using assms(1,2) by simp
  next
    case False
    then have "max v 0 = v" by simp
    then show ?thesis using that False by simp
  qed
  from b consider "?b = max (s2 - 1) 0" | "?b = max s2 0"
    | "s2 < orig" "?b = max (s2 + 1/4) 0" by blast
  then show ?thesis
  proof cases
    case 1
    have "s2 - 1 \<le> orig" using le assms(2) by simp
    then show ?thesis using mx [of "s2 - 1"] i1 1 by simp
  next
    case 2
    have "s2 \<le> orig" using le assms(2) by simp
    then show ?thesis using mx [of s2] i2 2 by simp
  next
    case 3
    then show ?thesis using mx [of "s2 + 1/4"] inc i3 by simp
  qed
qed

lemma moveObstacle_originalSpeed:
  "originalSpeed (moveObstacle this player obs a) = originalSpeed this"
  by (simp add: moveObstacle_def new_Obstacle_def Let_def)

lemma moveObstacle_crash_speed:
  assumes "detectCollisions this \<and> collisionDetected this obs"
  shows "speed (moveObstacle this player obs a) = 0"
  using assms by (simp add: moveObstacle_def new_Obstacle_def STOPPED_def)

lemma moveObstacle_brakeSteps:
  assumes "avoidance this = BRAKE"
    and "\<not> (detectCollisions this \<and> collisionDetected this obs)"
  shows "speed (moveObstacle this player obs a) =
     speedSteps (originalSpeed this \<noteq> 0) (speed this) (originalSpeed this)
       (case timeToCollision (speed this) (closestHazard this player obs) of
          None \<Rightarrow> False | Some t \<Rightarrow> 0 < t \<and> t < 100)
       (hazardWithin this player obs 200) (hazardWithin this player obs 100)
       (otherEmergencyVehicle this obs)"
  using assms
  by (simp add: moveObstacle_speed calculateSpeed_guarded guardedSpeed_def brakeSteps_def
      hazardWithin_closest)

lemma quarterGrid_step:
  assumes "quarterGrid this"
  shows "quarterGrid (moveObstacle this player obs a)"
proof (cases "detectCollisions this \<and> collisionDetected this obs")
  case True
  then show ?thesis
    using assms moveObstacle_crash_speed [OF True, of player a]
    by (simp add: quarterGrid_def moveObstacle_originalSpeed)
next
  case False
  show ?thesis
  proof (cases "avoidance this = BRAKE")
    case True
    show ?thesis
      using assms speedSteps_grid [of "speed this" "originalSpeed this"]
      by (simp add: quarterGrid_def moveObstacle_originalSpeed
          moveObstacle_brakeSteps [OF True False])
  next
    case notBrake: False
    then have "speed (moveObstacle this player obs a) = speed this"
      using False by (simp add: moveObstacle_speed calculateSpeed_def)
    then show ?thesis
      using assms by (simp add: quarterGrid_def moveObstacle_originalSpeed)
  qed
qed

lemma quarterGrid_ticks:
  assumes "quarterGrid this"
  shows "quarterGrid (ticks this envs) \<and> originalSpeed (ticks this envs) = originalSpeed this"
  using assms
proof (induction envs arbitrary: this)
  case Nil
  then show ?case by simp
next
  case (Cons env envs)
  obtain player obs a where env: "env = (player, obs, a)"
    by (cases env) auto
  have "quarterGrid (moveObstacle this player obs a)"
    using Cons.prems by (rule quarterGrid_step)
  then show ?case
    using Cons.IH [of "moveObstacle this player obs a"]
    by (simp add: env moveObstacle_originalSpeed)
qed

text \<open>
  Claim C2, as the code has it. For a BRAKE obstacle of non-negative speed, as the speed
  is after any tick: a tick with a counted hazard nearer than 100 does not raise the
  speed; a tick with no counted hazard nearer than 200 raises it by at most 0.25, and to
  less than 0.25 above the original speed when it was at or below it; and on the 0.25
  grid (see \<open>quarterGrid\<close>) the speed after any sequence of ticks is at most the original
  speed.
\<close>

theorem brake_speed_ticks:
  assumes "avoidance this = BRAKE" and "0 \<le> speed this"
  shows "0 \<le> speed (moveObstacle this player obs a) \<and>
         (hazardWithin this player obs 100 \<longrightarrow>
            speed (moveObstacle this player obs a) \<le> speed this) \<and>
         (\<not> hazardWithin this player obs 200 \<longrightarrow>
            speed (moveObstacle this player obs a) \<le> speed this + 0.25 \<and>
            (speed this \<le> originalSpeed this \<longrightarrow>
               speed (moveObstacle this player obs a) < originalSpeed this + 0.25)) \<and>
         (quarterGrid this \<longrightarrow> speed (ticks this envs) \<le> originalSpeed this)"
proof (cases "detectCollisions this \<and> collisionDetected this obs")
  case True
  have "speed (moveObstacle this player obs a) = 0"
    using True by (rule moveObstacle_crash_speed)
  moreover have "quarterGrid this \<longrightarrow> speed (ticks this envs) \<le> originalSpeed this"
    using quarterGrid_ticks [of this envs] by (auto simp: quarterGrid_def)
  ultimately show ?thesis
    using assms(2) by simp
next
  case False
  note sp = moveObstacle_brakeSteps [OF assms(1) False, of player a]
  have near: "speed (moveObstacle this player obs a) \<le> speed this"
    if "hazardWithin this player obs 100"
  proof -
    have "hazardWithin this player obs 200"
      using that distanceBelow_mono [of "closestHazard this player obs" 100 200]
      by (simp add: hazardWithin_closest)
    then show ?thesis
      using that speedSteps_near [OF assms(2)] by (simp add: sp)
  qed
  have far: "speed (moveObstacle this player obs a) \<le> speed this + 0.25 \<and>
            (speed this \<le> originalSpeed this \<longrightarrow>
               speed (moveObstacle this player obs a) < originalSpeed this + 0.25)"
    if "\<not> hazardWithin this player obs 200"
  proof -
    have "\<not> hazardWithin this player obs 100"
      using that distanceBelow_mono [of "closestHazard this player obs" 100 200]
      by (auto simp: hazardWithin_closest)
    then show ?thesis
      using that speedSteps_far [OF assms(2)] speedSteps_far_original [OF assms(2)]
      by (simp add: sp)
  qed
  have grid: "quarterGrid this \<longrightarrow> speed (ticks this envs) \<le> originalSpeed this"
    using quarterGrid_ticks [of this envs] by (auto simp: quarterGrid_def)
  have nonneg: "0 \<le> speed (moveObstacle this player obs a)"
    by (simp only: sp speedSteps_nonneg)
  show ?thesis
    using nonneg near far grid by blast
qed

theorem brake_speed_ticks_witness:
  "avoidance w1_this = BRAKE \<and> 0 \<le> speed w1_this \<and>
   0 \<le> speed (moveObstacle w1_this c2_near [w1_this] 10) \<and>
   hazardWithin w1_this c2_near [w1_this] 100 \<and>
   speed (moveObstacle w1_this c2_near [w1_this] 10) \<le> speed w1_this \<and>
   \<not> hazardWithin w1_this w4_player [w1_this] 200 \<and>
   speed (moveObstacle w1_this w4_player [w1_this] 10) \<le> speed w1_this + 0.25 \<and>
   speed w1_this \<le> originalSpeed w1_this \<and>
   speed (moveObstacle w1_this w4_player [w1_this] 10) < originalSpeed w1_this + 0.25 \<and>
   quarterGrid w1_this \<and>
   speed (ticks w1_this [(c2_near, [w1_this], 10), (w4_player, [w1_this], 20)])
     \<le> originalSpeed w1_this"
proof -
  have h1: "avoidance w1_this = BRAKE"
    by (simp add: w1_this_def new_Obstacle_def)
  have h2: "0 \<le> speed w1_this"
    by (simp add: w1_this_def new_Obstacle_def)
  have near: "hazardWithin w1_this c2_near [w1_this] 100"
    by (simp add: hazardWithin_def hazardsAhead_def countedAhead_def w1_this_def c2_near_def
        new_Obstacle_def)
  have far: "\<not> hazardWithin w1_this w4_player [w1_this] 200"
    by (simp add: hazardWithin_def hazardsAhead_def countedAhead_def w1_this_def w4_player_def
        new_Obstacle_def)
  have le: "speed w1_this \<le> originalSpeed w1_this"
    by (simp add: w1_this_def new_Obstacle_def)
  have grid: "quarterGrid w1_this"
    by (simp add: quarterGrid_def w1_this_def new_Obstacle_def)
  show ?thesis
    using h1 h2 near far le grid
      brake_speed_ticks [OF h1 h2, of c2_near "[w1_this]" 10
        "[(c2_near, [w1_this], 10), (w4_player, [w1_this], 20)]"]
      brake_speed_ticks [OF h1 h2, of w4_player "[w1_this]" 10 "[]"]
    by blast
qed

text \<open>
  The claim as stated fails in two ways. With speed 4, original speed 4.125 and no
  hazard, the tick returns speed 4.25, above the original speed. With speed -1 and the
  player 50 ahead, the tick returns speed 0, above the speed before.
\<close>

theorem brake_speed_ticks_counterexample:
  "avoidance c2_this = BRAKE \<and>
   \<not> hazardWithin c2_this w4_player [c2_this] 200 \<and>
   speed c2_this = 4 \<and> originalSpeed c2_this = 4.125 \<and>
   speed (moveObstacle c2_this w4_player [c2_this] 10) = 4.25 \<and>
   avoidance c2_reversing = BRAKE \<and>
   hazardWithin c2_reversing c2_near [c2_reversing] 100 \<and>
   speed c2_reversing = -1 \<and>
   speed (moveObstacle c2_reversing c2_near [c2_reversing] 10) = 0"
proof -
  have b1: "avoidance c2_this = BRAKE" "speed c2_this = 4" "originalSpeed c2_this = 4.125"
    by (simp_all add: c2_this_def new_Obstacle_def)
  have n1: "\<not> (detectCollisions c2_this \<and> collisionDetected c2_this [c2_this])"
    by (simp add: collisionDetected_def)
  have hz1: "hazardsAhead c2_this w4_player [c2_this] = []"
    by (simp add: hazardsAhead_def countedAhead_def c2_this_def w4_player_def new_Obstacle_def)
  have far: "\<not> hazardWithin c2_this w4_player [c2_this] 200"
    by (simp add: hazardWithin_def hz1)
  have "closestHazard c2_this w4_player [c2_this] = None"
    by (simp add: closestHazard_def hz1)
  then have "guardedSpeed c2_this w4_player [c2_this] = 4.25"
    by (simp add: guardedSpeed_def brakeSteps_def speedSteps_def timeToCollision_def
        distanceBelow_def otherEmergencyVehicle_def c2_this_def new_Obstacle_def)
  then have s1: "speed (moveObstacle c2_this w4_player [c2_this] 10) = 4.25"
    using n1 by (simp add: moveObstacle_speed calculateSpeed_guarded [OF b1(1)])
  have b2: "avoidance c2_reversing = BRAKE" "speed c2_reversing = -1"
    by (simp_all add: c2_reversing_def new_Obstacle_def)
  have n2: "\<not> (detectCollisions c2_reversing \<and> collisionDetected c2_reversing [c2_reversing])"
    by (simp add: collisionDetected_def)
  have hz2: "hazardsAhead c2_reversing c2_near [c2_reversing] = [(50, 0)]"
    by (simp add: hazardsAhead_def countedAhead_def c2_reversing_def c2_near_def
        new_Obstacle_def)
  have near: "hazardWithin c2_reversing c2_near [c2_reversing] 100"
    by (simp add: hazardWithin_def hz2)
  have "closestHazard c2_reversing c2_near [c2_reversing] = Some (50, 0)"
    by (simp add: closestHazard_def hz2)
  then have "guardedSpeed c2_reversing c2_near [c2_reversing] = 0"
    by (simp add: guardedSpeed_def brakeSteps_def speedSteps_def timeToCollision_def
        distanceBelow_def otherEmergencyVehicle_def c2_reversing_def new_Obstacle_def)
  then have s2: "speed (moveObstacle c2_reversing c2_near [c2_reversing] 10) = 0"
    using n2 by (simp add: moveObstacle_speed calculateSpeed_guarded [OF b2(1)])
  show ?thesis
    using b1 far s1 b2 near s2 by blast
qed

section \<open>Passing (Obstacle.calculateYForPassing)\<close>

lemma filter_map_ObstacleE:
  "filter (isObjectInFront this) (map ObstacleE obs) =
     map ObstacleE (filter (\<lambda>ob. countedAhead this (x ob) (y ob)) obs)"
  by (induction obs) (simp_all add: isObjectInFront_counted)

lemma getClosestObject_obstacles:
  "getClosestObject this (map ObstacleE obs) =
     map_option ObstacleE (closestObstacleAhead this obs)"
proof -
  let ?ahead = "filter (\<lambda>ob. countedAhead this (x ob) (y ob)) obs"
  have comp: "getDistanceTo this \<circ> ObstacleE = (\<lambda>ob. \<bar>x ob - x this\<bar>)"
    by (auto simp: getDistanceTo_def abs_minus_commute)
  show ?thesis
  proof (cases "?ahead = []")
    case True
    then show ?thesis
      by (simp add: getClosestObject_arg_min filter_map_ObstacleE closestObstacleAhead_def)
  next
    case False
    have "arg_min_list (getDistanceTo this) (map ObstacleE ?ahead) =
            ObstacleE (arg_min_list (\<lambda>ob. \<bar>x ob - x this\<bar>) ?ahead)"
      using arg_min_list_map [OF False, of "getDistanceTo this" ObstacleE] by (simp add: comp)
    then show ?thesis
      using False
      by (simp add: getClosestObject_arg_min filter_map_ObstacleE closestObstacleAhead_def)
  qed
qed

lemma moveObstacle_y:
  "y (moveObstacle this player obs a) =
     (if detectCollisions this \<and> collisionDetected this obs then y this
      else calculateYForPassing this player obs a)"
  by (simp add: moveObstacle_def new_Obstacle_def Let_def)

lemma calculateYForPassing_slower:
  assumes "avoidance this = PASS" and "closestObstacleAhead this obs = Some c"
    and "speed this < speed c"
  shows "calculateYForPassing this player obs a = originalY this"
  using assms by (simp add: calculateYForPassing_def getClosestObject_obstacles)

lemma calculateYForPassing_far:
  assumes "avoidance this = PASS" and "closestObstacleAhead this obs = Some c"
    and "\<not> speed this < speed c" and "\<bar>x this - x c\<bar> > 2 * width this"
    and "\<bar>originalY this - y this\<bar> \<le> height this"
  shows "calculateYForPassing this player obs a = y this"
  using assms
  by (simp add: calculateYForPassing_def getClosestObject_obstacles getDistanceTo_def Let_def)

lemma calculateYForPassing_near:
  assumes "avoidance this = PASS" and "closestObstacleAhead this obs = Some c"
    and "\<not> speed this < speed c" and "\<bar>x this - x c\<bar> \<le> 2 * width this"
    and "y this = originalY this" and "0 < height this"
  shows "calculateYForPassing this player obs a =
           y this + (if Obstacle.direction this = RIGHT then -8 else 8)"
  using assms
  by (simp add: calculateYForPassing_def getClosestObject_obstacles getDistanceTo_def Let_def)

text \<open>
  Claim C3, as the code has it. For a PASS obstacle with a closest obstacle ahead \<open>c\<close>:
  if it is not slower than \<open>c\<close>, \<open>c\<close> is farther than two widths away and it is displaced
  from its original y by at most its height, \<open>moveObstacle\<close> leaves y unchanged; if it is
  not slower than \<open>c\<close>, \<open>c\<close> is within two widths, it sits at its original y, its height
  is positive and it does not crash this tick, y moves by exactly 8 toward the passing
  side (minus 8 for RIGHT, plus 8 for LEFT); if it is slower than \<open>c\<close> and does not crash,
  y becomes the original y.
\<close>

theorem pass_lane_change:
  assumes "avoidance this = PASS" and "closestObstacleAhead this obs = Some c"
  shows "(\<not> speed this < speed c \<and> \<bar>x this - x c\<bar> > 2 * width this \<and>
          \<bar>originalY this - y this\<bar> \<le> height this \<longrightarrow>
            y (moveObstacle this player obs a) = y this) \<and>
         (\<not> speed this < speed c \<and> \<bar>x this - x c\<bar> \<le> 2 * width this \<and>
          y this = originalY this \<and> 0 < height this \<and>
          \<not> (detectCollisions this \<and> collisionDetected this obs) \<longrightarrow>
            y (moveObstacle this player obs a) =
              y this + (if Obstacle.direction this = RIGHT then -8 else 8)) \<and>
         (speed this < speed c \<and> \<not> (detectCollisions this \<and> collisionDetected this obs) \<longrightarrow>
            y (moveObstacle this player obs a) = originalY this)"
proof (intro conjI impI)
  assume "\<not> speed this < speed c \<and> \<bar>x this - x c\<bar> > 2 * width this \<and>
          \<bar>originalY this - y this\<bar> \<le> height this"
  then show "y (moveObstacle this player obs a) = y this"
    using assms by (simp add: moveObstacle_y calculateYForPassing_far)
next
  assume "\<not> speed this < speed c \<and> \<bar>x this - x c\<bar> \<le> 2 * width this \<and>
          y this = originalY this \<and> 0 < height this \<and>
          \<not> (detectCollisions this \<and> collisionDetected this obs)"
  then show "y (moveObstacle this player obs a) =
              y this + (if Obstacle.direction this = RIGHT then -8 else 8)"
    using assms calculateYForPassing_near [of this obs c player a]
    by (simp add: moveObstacle_y)
next
  assume "speed this < speed c \<and> \<not> (detectCollisions this \<and> collisionDetected this obs)"
  then show "y (moveObstacle this player obs a) = originalY this"
    using assms calculateYForPassing_slower [of this obs c player a]
    by (auto simp: moveObstacle_y)
qed

lemma p3_closest:
  assumes "x this = 0" and "Obstacle.direction this = RIGHT"
    and "0 < x1" and "\<bar>y1 - y this\<bar> \<le> height this"
  shows "closestObstacleAhead this [this, p3_ahead x1 y1 s] = Some (p3_ahead x1 y1 s)"
  using assms
  by (simp add: closestObstacleAhead_def countedAhead_def p3_ahead_def new_Obstacle_def)

lemma p3_fields:
  "speed (p3_ahead x1 y1 s) = s" "x (p3_ahead x1 y1 s) = x1" "y (p3_ahead x1 y1 s) = y1"
  "oid (p3_ahead x1 y1 s) = 2" "width (p3_ahead x1 y1 s) = 20" "height (p3_ahead x1 y1 s) = 10"
  by (simp_all add: p3_ahead_def new_Obstacle_def)

theorem pass_lane_change_witness:
  "avoidance p3_this = PASS \<and>
   closestObstacleAhead p3_this [p3_this, p3_ahead 1000 100 4] = Some (p3_ahead 1000 100 4) \<and>
   \<bar>x p3_this - x (p3_ahead 1000 100 4)\<bar> > 2 * width p3_this \<and>
   y (moveObstacle p3_this w4_player [p3_this, p3_ahead 1000 100 4] 10) = y p3_this \<and>
   closestObstacleAhead p3_this [p3_this, p3_ahead 30 100 4] = Some (p3_ahead 30 100 4) \<and>
   \<bar>x p3_this - x (p3_ahead 30 100 4)\<bar> \<le> 2 * width p3_this \<and>
   y p3_this = originalY p3_this \<and>
   y (moveObstacle p3_this w4_player [p3_this, p3_ahead 30 100 4] 10) = y p3_this - 8 \<and>
   avoidance p3_left = PASS \<and>
   closestObstacleAhead p3_left [p3_left, p3_ahead 470 100 4] = Some (p3_ahead 470 100 4) \<and>
   \<bar>x p3_left - x (p3_ahead 470 100 4)\<bar> \<le> 2 * width p3_left \<and>
   y p3_left = originalY p3_left \<and>
   y (moveObstacle p3_left w4_player [p3_left, p3_ahead 470 100 4] 10) = y p3_left + 8 \<and>
   avoidance p3_slow = PASS \<and>
   closestObstacleAhead p3_slow [p3_slow, p3_ahead 30 100 10] = Some (p3_ahead 30 100 10) \<and>
   speed p3_slow < speed (p3_ahead 30 100 10) \<and>
   y (moveObstacle p3_slow w4_player [p3_slow, p3_ahead 30 100 10] 10) = originalY p3_slow"
proof -
  have t: "avoidance p3_this = PASS" "x p3_this = 0" "Obstacle.direction p3_this = RIGHT"
    "y p3_this = 100" "height p3_this = 10" "width p3_this = 20" "speed p3_this = 10"
    "originalY p3_this = 100" "\<not> detectCollisions p3_this"
    by (simp_all add: p3_this_def new_Obstacle_def)
  have u: "avoidance p3_slow = PASS" "x p3_slow = 0" "Obstacle.direction p3_slow = RIGHT"
    "y p3_slow = 100" "height p3_slow = 10" "speed p3_slow = 4" "\<not> detectCollisions p3_slow"
    by (simp_all add: p3_slow_def new_Obstacle_def)
  have v: "avoidance p3_left = PASS" "x p3_left = 500" "Obstacle.direction p3_left = LEFT"
    "y p3_left = 100" "height p3_left = 10" "width p3_left = 20" "speed p3_left = 10"
    "originalY p3_left = 100" "\<not> detectCollisions p3_left"
    by (simp_all add: p3_left_def new_Obstacle_def)
  have c4: "closestObstacleAhead p3_left [p3_left, p3_ahead 470 100 4] = Some (p3_ahead 470 100 4)"
    by (simp add: closestObstacleAhead_def countedAhead_def v p3_fields)
  have a4: "\<not> speed p3_left < speed (p3_ahead 470 100 4) \<and>
      \<bar>x p3_left - x (p3_ahead 470 100 4)\<bar> \<le> 2 * width p3_left \<and>
      y p3_left = originalY p3_left \<and> 0 < height p3_left \<and>
      \<not> (detectCollisions p3_left \<and> collisionDetected p3_left [p3_left, p3_ahead 470 100 4])"
    by (simp add: v p3_fields)
  have l: "Obstacle.direction p3_left \<noteq> RIGHT" by (simp add: v)
  have c1: "closestObstacleAhead p3_this [p3_this, p3_ahead 1000 100 4] = Some (p3_ahead 1000 100 4)"
    by (rule p3_closest) (simp_all add: t)
  have c2: "closestObstacleAhead p3_this [p3_this, p3_ahead 30 100 4] = Some (p3_ahead 30 100 4)"
    by (rule p3_closest) (simp_all add: t)
  have c3: "closestObstacleAhead p3_slow [p3_slow, p3_ahead 30 100 10] = Some (p3_ahead 30 100 10)"
    by (rule p3_closest) (simp_all add: u)
  have a1: "\<not> speed p3_this < speed (p3_ahead 1000 100 4) \<and>
      \<bar>x p3_this - x (p3_ahead 1000 100 4)\<bar> > 2 * width p3_this \<and>
      \<bar>originalY p3_this - y p3_this\<bar> \<le> height p3_this"
    by (simp add: t p3_fields)
  have a2: "\<not> speed p3_this < speed (p3_ahead 30 100 4) \<and>
      \<bar>x p3_this - x (p3_ahead 30 100 4)\<bar> \<le> 2 * width p3_this \<and>
      y p3_this = originalY p3_this \<and> 0 < height p3_this \<and>
      \<not> (detectCollisions p3_this \<and> collisionDetected p3_this [p3_this, p3_ahead 30 100 4])"
    by (simp add: t p3_fields)
  have a3: "speed p3_slow < speed (p3_ahead 30 100 10) \<and>
      \<not> (detectCollisions p3_slow \<and> collisionDetected p3_slow [p3_slow, p3_ahead 30 100 10])"
    by (simp add: u p3_fields)
  have r: "Obstacle.direction p3_this = RIGHT" by (rule t)
  show ?thesis
    using t(1) u(1) v(1) c1 c2 c3 c4 a1 a2 a3 a4
      pass_lane_change [OF t(1) c1, of w4_player 10]
      pass_lane_change [OF t(1) c2, of w4_player 10]
      pass_lane_change [OF u(1) c3, of w4_player 10]
      pass_lane_change [OF v(1) c4, of w4_player 10]
    by (simp add: r l)
qed

lemma p3_slow_out_fields:
  "avoidance p3_slow_out = PASS" "x p3_slow_out = 0" "Obstacle.direction p3_slow_out = RIGHT"
  "y p3_slow_out = 92" "height p3_slow_out = 10" "speed p3_slow_out = 4" "width p3_slow_out = 20"
  "originalY p3_slow_out = 100" "\<not> detectCollisions p3_slow_out"
  by (simp_all add: p3_slow_out_def new_Obstacle_def)

lemma p3_slow_fields:
  "avoidance p3_slow = PASS" "x p3_slow = 0" "Obstacle.direction p3_slow = RIGHT"
  "y p3_slow = 100" "height p3_slow = 10" "speed p3_slow = 4" "width p3_slow = 20"
  "originalY p3_slow = 100" "\<not> detectCollisions p3_slow"
  by (simp_all add: p3_slow_def new_Obstacle_def)

lemma p3_crashing_fields:
  "avoidance p3_crashing = PASS" "x p3_crashing = 0" "Obstacle.direction p3_crashing = RIGHT"
  "y p3_crashing = 100" "height p3_crashing = 10" "speed p3_crashing = 10"
  "width p3_crashing = 20" "originalY p3_crashing = 100" "detectCollisions p3_crashing"
  "oid p3_crashing = 1"
  by (simp_all add: p3_crashing_def new_Obstacle_def)

lemma p3_out_fields:
  "avoidance p3_out = PASS" "x p3_out = 0" "Obstacle.direction p3_out = RIGHT"
  "y p3_out = 80" "height p3_out = 10" "speed p3_out = 10" "width p3_out = 20"
  "originalY p3_out = 100" "\<not> detectCollisions p3_out" "oid p3_out = 1"
  by (simp_all add: p3_out_def new_Obstacle_def)

lemma p3_flat_fields:
  "avoidance p3_flat = PASS" "x p3_flat = 0" "Obstacle.direction p3_flat = RIGHT"
  "y p3_flat = 100" "height p3_flat = 0" "speed p3_flat = 10" "width p3_flat = 20"
  "originalY p3_flat = 100" "\<not> detectCollisions p3_flat"
  by (simp_all add: p3_flat_def new_Obstacle_def)

lemma p3_slow_near:
  "y (moveObstacle p3_slow w4_player [p3_slow, p3_ahead 30 100 10] 10) = 100"
proof -
  have "closestObstacleAhead p3_slow [p3_slow, p3_ahead 30 100 10] = Some (p3_ahead 30 100 10)"
    by (rule p3_closest) (simp_all add: p3_slow_fields)
  then show ?thesis
    by (simp add: moveObstacle_y calculateYForPassing_slower p3_slow_fields p3_fields)
qed

lemma p3_slow_far:
  "y (moveObstacle p3_slow_out w4_player [p3_slow_out, p3_ahead 1000 100 10] 10) = 100"
proof -
  have "closestObstacleAhead p3_slow_out [p3_slow_out, p3_ahead 1000 100 10] =
          Some (p3_ahead 1000 100 10)"
    by (rule p3_closest) (simp_all add: p3_slow_out_fields)
  then show ?thesis
    by (simp add: moveObstacle_y calculateYForPassing_slower p3_slow_out_fields p3_fields)
qed

lemma p3_crash:
  "y (moveObstacle p3_crashing w4_player [p3_crashing, p3_ahead 10 100 4] 10) = 100"
proof -
  have "collisionDetected p3_crashing [p3_crashing, p3_ahead 10 100 4]"
    by (simp add: collisionDetected_def intersects_def p3_crashing_fields p3_fields)
  then show ?thesis
    by (simp add: moveObstacle_y p3_crashing_fields)
qed

lemma p3_return:
  "y (moveObstacle p3_out w4_player [p3_out, p3_ahead 1000 85 4] 10) = 100"
proof -
  let ?obs = "[p3_out, p3_ahead 1000 85 4]"
  let ?preview = "clone 10 p3_out 0 100"
  have c: "closestObstacleAhead p3_out ?obs = Some (p3_ahead 1000 85 4)"
    by (rule p3_closest) (simp_all add: p3_out_fields)
  have pf: "oid ?preview = 10" "x ?preview = 0" "y ?preview = 100" "width ?preview = 20"
    "height ?preview = 10" "Obstacle.direction ?preview = RIGHT"
    by (simp_all add: clone_def new_Obstacle_def p3_out_fields)
  have free: "\<not> collisionDetected ?preview ?obs"
    by (simp add: collisionDetected_def intersects_def pf p3_out_fields p3_fields)
  have none: "closestObstacleAhead ?preview ?obs = None"
    by (simp add: closestObstacleAhead_def countedAhead_def pf p3_out_fields p3_fields)
  have "calculateYForPassing p3_out w4_player ?obs 10 = 100"
    using free
    by (simp add: calculateYForPassing_def getClosestObject_obstacles c none Let_def
        p3_out_fields p3_fields del: list.map)
  then show ?thesis
    by (simp add: moveObstacle_y p3_out_fields)
qed

lemma p3_flat_near:
  "y (moveObstacle p3_flat w4_player [p3_flat, p3_ahead 30 100 4] 10) = 100"
proof -
  have c: "closestObstacleAhead p3_flat [p3_flat, p3_ahead 30 100 4] = Some (p3_ahead 30 100 4)"
    by (rule p3_closest) (simp_all add: p3_flat_fields)
  have "calculateYForPassing p3_flat w4_player [p3_flat, p3_ahead 30 100 4] 10 = 100"
    by (simp add: calculateYForPassing_def getClosestObject_obstacles c Let_def
        getDistanceTo_def p3_flat_fields p3_fields del: list.map)
  then show ?thesis
    by (simp add: moveObstacle_y p3_flat_fields)
qed

text \<open>
  The claim as stated fails at five inputs (obstacle at x = 0, RIGHT, width 20): slower
  than the obstacle 30 ahead, at its original y: y stays; slower than the obstacle 1000
  ahead, at y 92 with original y 100: y becomes 100; colliding with the obstacle 10 ahead
  with \<open>detectCollisions\<close>: crashed, y stays; at y 80 with original y 100 and height 10,
  the obstacle 1000 ahead: returned to y 100; height 0, the obstacle 30 ahead: y stays.
\<close>

theorem pass_lane_change_counterexample:
  "avoidance p3_slow = PASS \<and>
   closestObstacleAhead p3_slow [p3_slow, p3_ahead 30 100 10] = Some (p3_ahead 30 100 10) \<and>
   \<bar>x p3_slow - x (p3_ahead 30 100 10)\<bar> \<le> 2 * width p3_slow \<and>
   y p3_slow = originalY p3_slow \<and>
   y (moveObstacle p3_slow w4_player [p3_slow, p3_ahead 30 100 10] 10) = y p3_slow \<and>
   avoidance p3_slow_out = PASS \<and>
   closestObstacleAhead p3_slow_out [p3_slow_out, p3_ahead 1000 100 10] =
     Some (p3_ahead 1000 100 10) \<and>
   \<bar>x p3_slow_out - x (p3_ahead 1000 100 10)\<bar> > 2 * width p3_slow_out \<and>
   y p3_slow_out = 92 \<and>
   y (moveObstacle p3_slow_out w4_player [p3_slow_out, p3_ahead 1000 100 10] 10) = 100 \<and>
   avoidance p3_crashing = PASS \<and>
   closestObstacleAhead p3_crashing [p3_crashing, p3_ahead 10 100 4] = Some (p3_ahead 10 100 4) \<and>
   \<bar>x p3_crashing - x (p3_ahead 10 100 4)\<bar> \<le> 2 * width p3_crashing \<and>
   y p3_crashing = originalY p3_crashing \<and>
   y (moveObstacle p3_crashing w4_player [p3_crashing, p3_ahead 10 100 4] 10) = y p3_crashing \<and>
   avoidance p3_out = PASS \<and>
   closestObstacleAhead p3_out [p3_out, p3_ahead 1000 85 4] = Some (p3_ahead 1000 85 4) \<and>
   \<bar>x p3_out - x (p3_ahead 1000 85 4)\<bar> > 2 * width p3_out \<and>
   y p3_out = 80 \<and>
   y (moveObstacle p3_out w4_player [p3_out, p3_ahead 1000 85 4] 10) = 100 \<and>
   avoidance p3_flat = PASS \<and>
   closestObstacleAhead p3_flat [p3_flat, p3_ahead 30 100 4] = Some (p3_ahead 30 100 4) \<and>
   \<bar>x p3_flat - x (p3_ahead 30 100 4)\<bar> \<le> 2 * width p3_flat \<and>
   y p3_flat = originalY p3_flat \<and>
   y (moveObstacle p3_flat w4_player [p3_flat, p3_ahead 30 100 4] 10) = y p3_flat"
proof -
  have c1: "closestObstacleAhead p3_slow [p3_slow, p3_ahead 30 100 10] = Some (p3_ahead 30 100 10)"
    by (rule p3_closest) (simp_all add: p3_slow_fields)
  have c2: "closestObstacleAhead p3_slow_out [p3_slow_out, p3_ahead 1000 100 10] =
     Some (p3_ahead 1000 100 10)"
    by (rule p3_closest) (simp_all add: p3_slow_out_fields)
  have c3: "closestObstacleAhead p3_crashing [p3_crashing, p3_ahead 10 100 4] =
     Some (p3_ahead 10 100 4)"
    by (rule p3_closest) (simp_all add: p3_crashing_fields)
  have c4: "closestObstacleAhead p3_out [p3_out, p3_ahead 1000 85 4] = Some (p3_ahead 1000 85 4)"
    by (rule p3_closest) (simp_all add: p3_out_fields)
  have c5: "closestObstacleAhead p3_flat [p3_flat, p3_ahead 30 100 4] = Some (p3_ahead 30 100 4)"
    by (rule p3_closest) (simp_all add: p3_flat_fields)
  show ?thesis
    unfolding c1 c2 c3 c4 c5 p3_slow_near p3_slow_far p3_crash p3_return p3_flat_near
    by (simp add: p3_slow_fields p3_slow_out_fields p3_crashing_fields p3_out_fields
        p3_flat_fields p3_fields)
qed

section \<open>Advancing a lane (Lane.updateObstacles)\<close>

lemma moveObstacle_direction:
  "Obstacle.direction (moveObstacle this player obs a) = Obstacle.direction this"
  by (simp add: moveObstacle_def new_Obstacle_def Let_def)

lemma updateObstacles_obstacles:
  "Lane.obstacles (updateObstacles this player obs a) =
     filter (stillOnStreet this) (advanced this player obs a)"
  by (simp add: updateObstacles_def advanced_def)

lemma advanced_direction:
  assumes "list_all (\<lambda>ob. Obstacle.direction ob = Lane.direction this) (Lane.obstacles this)"
    and "m \<in> set (advanced this player obs a)"
  shows "Obstacle.direction m = Lane.direction this"
proof -
  obtain i ob where "(i, ob) \<in> set (enumerate 0 (Lane.obstacles this))"
    and m: "m = moveObstacle ob player obs (a + 2 * i)"
    using assms(2) by (auto simp: advanced_def)
  then have "ob \<in> set (Lane.obstacles this)"
    by (auto simp: in_set_enumerate_eq)
  then have "Obstacle.direction ob = Lane.direction this"
    using assms(1) by (simp add: list_all_iff)
  then show ?thesis
    by (simp add: m moveObstacle_direction)
qed

lemma stillOnStreet_hasLeft:
  assumes "Obstacle.direction m = Lane.direction this"
  shows "stillOnStreet this m = (\<not> hasLeft (Lane.streetLength this) m)"
  using assms by (cases "Lane.direction this") (auto simp: stillOnStreet_def hasLeft_def)

text \<open>
  Claim C5, as the code has it. \<open>updateObstacles\<close> first advances every obstacle of the
  lane and then keeps, in order, exactly the advanced obstacles that have not left,
  judged by the direction of the lane (\<open>this.direction\<close> in the filter is the lane's): in
  a LEFT lane an obstacle is dropped iff its \<open>x + width \<le> 0\<close>, in a RIGHT lane iff its
  \<open>x \<ge> streetLength\<close>. Nothing else of the lane changes. When the obstacles of the lane
  have the direction of the lane, this is the test by the direction of the obstacle.
\<close>

theorem updateObstacles_keeps:
  shows "Lane.obstacles (updateObstacles this player obs a) =
           filter (\<lambda>m. \<not> (if Lane.direction this = LEFT then x m + width m \<le> 0
                         else x m \<ge> Lane.streetLength this))
             (advanced this player obs a) \<and>
         (list_all (\<lambda>ob. Obstacle.direction ob = Lane.direction this) (Lane.obstacles this) \<longrightarrow>
            Lane.obstacles (updateObstacles this player obs a) =
              filter (\<lambda>m. \<not> hasLeft (Lane.streetLength this) m) (advanced this player obs a)) \<and>
         length (advanced this player obs a) = length (Lane.obstacles this) \<and>
         updateObstacles this player obs a =
           this\<lparr> Lane.obstacles := Lane.obstacles (updateObstacles this player obs a) \<rparr>"
proof (intro conjI impI)
  show "Lane.obstacles (updateObstacles this player obs a) =
           filter (\<lambda>m. \<not> (if Lane.direction this = LEFT then x m + width m \<le> 0
                         else x m \<ge> Lane.streetLength this))
             (advanced this player obs a)"
    unfolding updateObstacles_obstacles
    by (rule filter_cong) (auto simp: stillOnStreet_def)
next
  assume inv: "list_all (\<lambda>ob. Obstacle.direction ob = Lane.direction this) (Lane.obstacles this)"
  show "Lane.obstacles (updateObstacles this player obs a) =
          filter (\<lambda>m. \<not> hasLeft (Lane.streetLength this) m) (advanced this player obs a)"
    unfolding updateObstacles_obstacles
  proof (rule filter_cong)
    fix m assume "m \<in> set (advanced this player obs a)"
    then have "Obstacle.direction m = Lane.direction this"
      using inv by (rule advanced_direction [rotated])
    then show "stillOnStreet this m = (\<not> hasLeft (Lane.streetLength this) m)"
      by (rule stillOnStreet_hasLeft)
  qed simp
next
  show "length (advanced this player obs a) = length (Lane.obstacles this)"
    by (simp add: advanced_def)
next
  show "updateObstacles this player obs a =
           this\<lparr> Lane.obstacles := Lane.obstacles (updateObstacles this player obs a) \<rparr>"
    by (simp add: updateObstacles_def)
qed

lemma w5_advanced:
  "map x (advanced w5_lane w4_player [w5_a, w5_b] 10) = [605, 104]"
  by (simp add: advanced_def w5_lane_def w5_a_def w5_b_def moveObstacle_def
      calculateSpeed_def calculateYForPassing_def new_Obstacle_def enumerate_eq_zip)

theorem updateObstacles_keeps_witness:
  "list_all (\<lambda>ob. Obstacle.direction ob = Lane.direction w5_lane) (Lane.obstacles w5_lane) \<and>
   Lane.obstacles (updateObstacles w5_lane w4_player [w5_a, w5_b] 10) =
     filter (\<lambda>m. \<not> hasLeft (Lane.streetLength w5_lane) m)
       (advanced w5_lane w4_player [w5_a, w5_b] 10) \<and>
   map x (advanced w5_lane w4_player [w5_a, w5_b] 10) = [605, 104] \<and>
   map x (Lane.obstacles (updateObstacles w5_lane w4_player [w5_a, w5_b] 10)) = [104]"
proof -
  have inv: "list_all (\<lambda>ob. Obstacle.direction ob = Lane.direction w5_lane)
               (Lane.obstacles w5_lane)"
    by (simp add: w5_lane_def w5_a_def w5_b_def new_Obstacle_def)
  have keep: "Lane.obstacles (updateObstacles w5_lane w4_player [w5_a, w5_b] 10) =
     filter (\<lambda>m. \<not> (if Lane.direction w5_lane = LEFT then x m + width m \<le> 0
                         else x m \<ge> Lane.streetLength w5_lane))
       (advanced w5_lane w4_player [w5_a, w5_b] 10)"
    using updateObstacles_keeps [of w5_lane w4_player "[w5_a, w5_b]" 10] by blast
  have sel: "map x (filter (\<lambda>m. \<not> 600 \<le> x m) ms) = filter (\<lambda>v. \<not> 600 \<le> v) (map x ms)"
    for ms :: "Obstacle list"
    by (induction ms) simp_all
  have "map x (Lane.obstacles (updateObstacles w5_lane w4_player [w5_a, w5_b] 10)) = [104]"
    unfolding keep by (simp add: w5_lane_def sel w5_advanced [unfolded w5_lane_def])
  then show ?thesis
    using inv w5_advanced updateObstacles_keeps [of w5_lane w4_player "[w5_a, w5_b]" 10]
    by blast
qed

lemma c5_advanced:
  "map x (advanced c5_lane w4_player [c5_wrongway, c5_entering] 10) = [704, -46]"
  "map Obstacle.direction (advanced c5_lane w4_player [c5_wrongway, c5_entering] 10) =
     [RIGHT, RIGHT]"
  "map width (advanced c5_lane w4_player [c5_wrongway, c5_entering] 10) = [20, 20]"
  by (simp_all add: advanced_def c5_lane_def c5_wrongway_def c5_entering_def moveObstacle_def
      calculateSpeed_def calculateYForPassing_def new_Obstacle_def enumerate_eq_zip)

text \<open>
  The claim as stated judges by the direction of the obstacle. Two RIGHT obstacles in a
  LEFT lane of length 600: the one advanced to x 704 has left as the claim defines it
  and is kept; the one advanced to x -46 has not left and is dropped.
\<close>

theorem updateObstacles_counterexample:
  "Lane.direction c5_lane = LEFT \<and> Lane.streetLength c5_lane = 600 \<and>
   map Obstacle.direction (advanced c5_lane w4_player [c5_wrongway, c5_entering] 10) =
     [RIGHT, RIGHT] \<and>
   map x (advanced c5_lane w4_player [c5_wrongway, c5_entering] 10) = [704, -46] \<and>
   map (hasLeft (Lane.streetLength c5_lane))
     (advanced c5_lane w4_player [c5_wrongway, c5_entering] 10) = [True, False] \<and>
   map x (Lane.obstacles (updateObstacles c5_lane w4_player [c5_wrongway, c5_entering] 10)) =
     [704]"
proof -
  have l: "Lane.direction c5_lane = LEFT" "Lane.streetLength c5_lane = 600"
    by (simp_all add: c5_lane_def)
  obtain m1 m2 where adv: "advanced c5_lane w4_player [c5_wrongway, c5_entering] 10 = [m1, m2]"
    by (simp add: advanced_def c5_lane_def enumerate_eq_zip)
  have f: "x m1 = 704" "x m2 = -46" "Obstacle.direction m1 = RIGHT"
    "Obstacle.direction m2 = RIGHT" "width m1 = 20" "width m2 = 20"
    using c5_advanced by (simp_all add: adv)
  have left: "map (hasLeft (Lane.streetLength c5_lane))
     (advanced c5_lane w4_player [c5_wrongway, c5_entering] 10) = [True, False]"
    by (simp add: adv hasLeft_def f l)
  have "Lane.obstacles (updateObstacles c5_lane w4_player [c5_wrongway, c5_entering] 10) = [m1]"
    by (simp add: updateObstacles_obstacles adv stillOnStreet_def f l)
  then have kept: "map x (Lane.obstacles
      (updateObstacles c5_lane w4_player [c5_wrongway, c5_entering] 10)) = [704]"
    by (simp add: f)
  show ?thesis
    using l c5_advanced(1,2) left kept by simp
qed

section \<open>The pedestrian signal (CrosswalkSign.update)\<close>

lemma update_flips:
  assumes "flips this others now"
  shows "update this others now stamp a = flash this (\<not> flashingSequence this) stamp a"
  using assms
  by (simp add: update_def flips_def playerInCrosswalk_def getFlashIntervalInMilliseconds_def)

lemma update_idle:
  assumes "\<not> flips this others now"
  shows "update this others now stamp a = this"
  using assms
  by (auto simp: update_def flips_def playerInCrosswalk_def getFlashIntervalInMilliseconds_def)

lemma flash_fields:
  "flashing (flash this sq stamp a)" "flashingSequence (flash this sq stamp a) = sq"
  "timestampOfPreviousFlash (flash this sq stamp a) = stamp"
  by (simp_all add: flash_def new_CrosswalkSign_def)

lemma update_flashing:
  assumes "flashing this"
  shows "flashing (update this others now stamp a)"
  using assms by (cases "flips this others now") (simp_all add: update_flips update_idle flash_fields)

lemma updates_flashing:
  assumes "flashing this"
  shows "flashing (updates this rest)"
  using assms
proof (induction rest arbitrary: this)
  case Nil
  then show ?case by simp
next
  case (Cons tick rest)
  obtain others now stamp a where tick: "tick = (others, now, stamp, a)"
    by (cases tick) auto
  have "flashing (update this others now stamp a)"
    using Cons.prems by (rule update_flashing)
  then show ?case
    using Cons.IH by (simp add: tick)
qed

text \<open>
  Claim C6, as the code has it. On an update, the sequence flag is flipped and the
  toggle timestamp restamped (with the reading \<open>flash\<close> takes) if and only if the signal
  is flashing or the player's box intersects the crosswalk zone, and more than 500 ms
  have elapsed since the previous toggle; otherwise the signal is returned as it is.
  Such a flip sets \<open>flashing\<close>. A flashing signal is flashing after any sequence of
  updates.
\<close>

theorem update_flip_iff:
  shows "(flips this others now \<longrightarrow>
            flashingSequence (update this others now stamp a) = (\<not> flashingSequence this) \<and>
            timestampOfPreviousFlash (update this others now stamp a) = stamp \<and>
            flashing (update this others now stamp a)) \<and>
         (\<not> flips this others now \<longrightarrow> update this others now stamp a = this) \<and>
         (flashing this \<longrightarrow> flashing (updates this rest))"
  by (simp add: update_flips update_idle flash_fields updates_flashing)

lemma c6_player_in: "playerInCrosswalk c6_idle [ObstacleE w4_this, PlayerE c6_player]"
  by (simp add: playerInCrosswalk_def intersects_def c6_idle_def c6_zone_def c6_player_def
      new_CrosswalkSign_def)

theorem update_flip_iff_witness:
  "flips c6_idle [ObstacleE w4_this, PlayerE c6_player] 501 \<and>
   flashingSequence (update c6_idle [ObstacleE w4_this, PlayerE c6_player] 501 502 9) =
     (\<not> flashingSequence c6_idle) \<and>
   timestampOfPreviousFlash (update c6_idle [ObstacleE w4_this, PlayerE c6_player] 501 502 9) = 502 \<and>
   flashing (update c6_idle [ObstacleE w4_this, PlayerE c6_player] 501 502 9) \<and>
   \<not> flips c6_idle [ObstacleE w4_this] 501 \<and>
   update c6_idle [ObstacleE w4_this] 501 502 9 = c6_idle \<and>
   flashing c6_flashing \<and>
   flashing (updates c6_flashing [([], 400, 401, 9), ([PlayerE c6_player], 900, 901, 10)])"
proof -
  have f: "flips c6_idle [ObstacleE w4_this, PlayerE c6_player] 501"
    using c6_player_in by (simp add: flips_def) (simp add: c6_idle_def new_CrosswalkSign_def)
  have n: "\<not> flips c6_idle [ObstacleE w4_this] 501"
    by (simp add: flips_def playerInCrosswalk_def) (simp add: c6_idle_def new_CrosswalkSign_def)
  have l: "flashing c6_flashing"
    by (simp add: c6_flashing_def new_CrosswalkSign_def)
  show ?thesis
    using f n l
      update_flip_iff [of c6_idle "[ObstacleE w4_this, PlayerE c6_player]" 501 502 9]
      update_flip_iff [of c6_idle "[ObstacleE w4_this]" 501 502 9]
      update_flip_iff [of c6_flashing _ _ _ _
        "[([], 400, 401, 9), ([PlayerE c6_player], 900, 901, 10)]"]
    by blast
qed

text \<open>
  The claim as stated flips at exactly 500 ms. A flashing signal last toggled at 0 and
  updated at 500 is returned as it is.
\<close>

theorem update_flip_counterexample:
  "claimedFlip c6_flashing [] 500 \<and> update c6_flashing [] 500 501 9 = c6_flashing"
proof -
  have f: "flashing c6_flashing" "timestampOfPreviousFlash c6_flashing = 0"
    by (simp_all add: c6_flashing_def new_CrosswalkSign_def)
  have "\<not> flips c6_flashing [] 500"
    by (simp add: flips_def f)
  then have "update c6_flashing [] 500 501 9 = c6_flashing"
    by (rule update_idle)
  then show ?thesis
    by (simp add: claimedFlip_def f)
qed

section \<open>The two errors (readyForNext of the subclasses)\<close>

lemma findPlayer_None: "findPlayer objects = None \<longleftrightarrow> \<not> list_ex isPlayer objects"
  by (induction objects rule: findPlayer.induct) simp_all

lemma findCrosswalkSign_None:
  "findCrosswalkSign objects = None \<longleftrightarrow> \<not> list_ex isCrosswalkSign objects"
  by (induction objects rule: findCrosswalkSign.induct) simp_all

text \<open>
  Claim C8. \<open>readyForNext\<close> of the target-gated producer throws (its one error) if and
  only if the time gate has passed and the entities hold no player; that of the
  crosswalk-gated producer if and only if the time gate has passed and the entities hold
  no pedestrian signal; otherwise each returns a boolean. \<open>readyForNext\<close> assigns to
  nothing: it is a function of the producer, the entities and the clock reading, and
  returns only its result.
\<close>

theorem readyForNext_throws:
  shows "(readyForNext_Target this target objects now = Inl PlayerNotFound \<longleftrightarrow>
            readyForNext_base this objects now \<and> \<not> list_ex isPlayer objects) \<and>
         (readyForNext_Target this target objects now = Inl PlayerNotFound \<or>
          (\<exists>b. readyForNext_Target this target objects now = Inr b)) \<and>
         (readyForNext_Crosswalk this objects now = Inl CrosswalkSignNotFound \<longleftrightarrow>
            readyForNext_base this objects now \<and> \<not> list_ex isCrosswalkSign objects) \<and>
         (readyForNext_Crosswalk this objects now = Inl CrosswalkSignNotFound \<or>
          (\<exists>b. readyForNext_Crosswalk this objects now = Inr b))"
  using findPlayer_None [of objects] findCrosswalkSign_None [of objects]
  by (auto simp: readyForNext_Target_def readyForNext_Crosswalk_def Let_def
      split: option.splits)

lemma w8_facts:
  "readyForNext_Target w8_target c6_zone [ObstacleE w4_this] 2000 = Inl PlayerNotFound"
  "readyForNext_Target w8_target c6_zone [ObstacleE w4_this, PlayerE c6_player] 2000 = Inr True"
  "readyForNext_Target w8_target c6_zone [ObstacleE w4_this] 1000 = Inr False"
  "readyForNext_Crosswalk w8_crosswalk [PlayerE c6_player] 100000001 = Inl CrosswalkSignNotFound"
  "readyForNext_Crosswalk w8_crosswalk [PlayerE c6_player, CrosswalkSignE c6_flashing] 100000001
     = Inr True"
  by (simp_all add: readyForNext_Target_def readyForNext_Crosswalk_def readyForNext_base_def
      w8_target_def w8_crosswalk_def new_TargetObstacleProducer_def
      new_CrosswalkObstacleProducer_def new_ObstacleProducer_def intersects_def
      c6_zone_def c6_player_def c6_flashing_def new_CrosswalkSign_def)

theorem readyForNext_throws_witness:
  "readyForNext_base w8_target [ObstacleE w4_this] 2000 \<and>
   \<not> list_ex isPlayer [ObstacleE w4_this] \<and>
   readyForNext_Target w8_target c6_zone [ObstacleE w4_this] 2000 = Inl PlayerNotFound \<and>
   readyForNext_Target w8_target c6_zone [ObstacleE w4_this, PlayerE c6_player] 2000 = Inr True \<and>
   readyForNext_Target w8_target c6_zone [ObstacleE w4_this] 1000 = Inr False \<and>
   readyForNext_base w8_crosswalk [PlayerE c6_player] 100000001 \<and>
   \<not> list_ex isCrosswalkSign [PlayerE c6_player] \<and>
   readyForNext_Crosswalk w8_crosswalk [PlayerE c6_player] 100000001 = Inl CrosswalkSignNotFound \<and>
   readyForNext_Crosswalk w8_crosswalk [PlayerE c6_player, CrosswalkSignE c6_flashing] 100000001
     = Inr True"
proof -
  have g1: "readyForNext_base w8_target [ObstacleE w4_this] 2000"
    by (simp add: readyForNext_base_def w8_target_def new_TargetObstacleProducer_def
        new_ObstacleProducer_def)
  have g2: "readyForNext_base w8_crosswalk [PlayerE c6_player] 100000001"
    by (simp add: readyForNext_base_def w8_crosswalk_def new_CrosswalkObstacleProducer_def
        new_ObstacleProducer_def)
  have n1: "\<not> list_ex isPlayer [ObstacleE w4_this]" by simp
  have n2: "\<not> list_ex isCrosswalkSign [PlayerE c6_player]" by simp
  show ?thesis
    using g1 g2 n1 n2 w8_facts(2,3,5)
      readyForNext_throws [where this = w8_target and target = c6_zone
        and objects = "[ObstacleE w4_this]" and now = 2000]
      readyForNext_throws [where this = w8_crosswalk and objects = "[PlayerE c6_player]"
        and now = 100000001]
    by blast
qed

section \<open>Spawning (Street.generateObstacles)\<close>

lemma next_obstacle:
  "fst (next this x0 now a) =
     clone a (template this) (if assignX this then x0 else x (template this)) (y (template this))"
  by (simp add: next_def Let_def)

lemma clone_width: "width (clone a this x0 y0) = width this"
  by (simp add: clone_def new_Obstacle_def)

lemma attemptLoop_step:
  "attemptLoop clk lane producer safeX attempts w =
     (if Suc attempts < 3 \<and>
         collisionDetected (fst (next producer safeX (clk (clockReads w)) (allocated w)))
           (Lane.obstacles lane)
      then attemptLoop clk lane (snd (next producer safeX (clk (clockReads w)) (allocated w)))
             (safeX + 2 * width (template producer) * - directionValue (Lane.direction lane))
             (Suc attempts)
             \<lparr> allocated = Suc (allocated w), clockReads = Suc (clockReads w) \<rparr>
      else (fst (next producer safeX (clk (clockReads w)) (allocated w)),
            snd (next producer safeX (clk (clockReads w)) (allocated w)),
            Suc attempts,
            \<lparr> allocated = Suc (allocated w), clockReads = Suc (clockReads w) \<rparr>))"
  by (subst attemptLoop.simps)
     (simp add: Let_def split_beta next_obstacle clone_width)

lemma attemptLoop_unfold:
  "attemptLoop clk lane producer safeX attempts \<lparr> allocated = a, clockReads = r \<rparr> =
     (if Suc attempts < 3 \<and>
         collisionDetected (fst (next producer safeX (clk r) a)) (Lane.obstacles lane)
      then attemptLoop clk lane (snd (next producer safeX (clk r) a))
             (safeX + 2 * width (template producer) * - directionValue (Lane.direction lane))
             (Suc attempts) \<lparr> allocated = Suc a, clockReads = Suc r \<rparr>
      else (fst (next producer safeX (clk r) a), snd (next producer safeX (clk r) a),
            Suc attempts, \<lparr> allocated = Suc a, clockReads = Suc r \<rparr>))"
  using attemptLoop_step [of clk lane producer safeX attempts "\<lparr> allocated = a, clockReads = r \<rparr>"]
  by simp

lemma next_producer:
  "snd (next this x0 now a) = this\<lparr> lastObstacleTime := now \<rparr>"
  by (simp add: next_def Let_def)

lemma candidate_next:
  "fst (next (producer\<lparr> lastObstacleTime := t \<rparr>)
         (x0 + real n * (2 * width (template producer) * - directionValue (Lane.direction lane)))
         now (a0 + n)) =
     candidate producer lane x0 \<lparr> allocated = a0, clockReads = r0 \<rparr> (Suc n)"
  by (simp add: next_obstacle candidate_def)

text \<open>
  The loop entered for attempt \<open>n + 1\<close> stops after some attempt \<open>k\<close>, \<open>n < k \<le> 3\<close>, with
  the candidate of attempt \<open>k\<close>, the producer stamped with the reading of that attempt,
  and one address and one reading used by each attempt. It stops before the third
  attempt only at a candidate that does not collide.
\<close>

lemma attemptLoop_result:
  assumes "n < 3"
  shows "\<exists>k. n < k \<and> k \<le> 3 \<and>
     attemptLoop clk lane (producer\<lparr> lastObstacleTime := t \<rparr>)
         (x0 + real n * (2 * width (template producer) * - directionValue (Lane.direction lane)))
         n \<lparr> allocated = a0 + n, clockReads = r0 + n \<rparr> =
       (candidate producer lane x0 \<lparr> allocated = a0, clockReads = r0 \<rparr> k,
        producer\<lparr> lastObstacleTime := clk (r0 + (k - 1)) \<rparr>,
        k, \<lparr> allocated = a0 + k, clockReads = r0 + k \<rparr>) \<and>
     (k < 3 \<longrightarrow>
        \<not> collisionDetected (candidate producer lane x0 \<lparr> allocated = a0, clockReads = r0 \<rparr> k)
            (Lane.obstacles lane))"
  using assms
proof (induction "3 - n" arbitrary: n t)
  case 0
  then show ?case by simp
next
  case (Suc m)
  let ?step = "2 * width (template producer) * - directionValue (Lane.direction lane)"
  let ?w = "\<lparr> allocated = a0, clockReads = r0 \<rparr>"
  let ?p = "producer\<lparr> lastObstacleTime := t \<rparr>"
  let ?cand = "candidate producer lane x0 ?w"
  have fst_next: "fst (next ?p (x0 + real n * ?step) (clk (r0 + n)) (a0 + n)) = ?cand (Suc n)"
    by (rule candidate_next)
  have snd_next: "snd (next ?p (x0 + real n * ?step) (clk (r0 + n)) (a0 + n)) =
                    producer\<lparr> lastObstacleTime := clk (r0 + n) \<rparr>"
    by (simp add: next_producer)
  have unfold: "attemptLoop clk lane ?p (x0 + real n * ?step) n
                  \<lparr> allocated = a0 + n, clockReads = r0 + n \<rparr> =
     (if Suc n < 3 \<and> collisionDetected (?cand (Suc n)) (Lane.obstacles lane)
      then attemptLoop clk lane (producer\<lparr> lastObstacleTime := clk (r0 + n) \<rparr>)
             (x0 + real (Suc n) * ?step) (Suc n)
             \<lparr> allocated = a0 + Suc n, clockReads = r0 + Suc n \<rparr>
      else (?cand (Suc n), producer\<lparr> lastObstacleTime := clk (r0 + n) \<rparr>, Suc n,
            \<lparr> allocated = a0 + Suc n, clockReads = r0 + Suc n \<rparr>))"
  proof -
    have tp: "template ?p = template producer" by simp
    have e1: "x0 + real n * ?step + ?step = x0 + real (Suc n) * ?step"
      by (simp add: algebra_simps)
    show ?thesis
      by (simp only: attemptLoop_unfold [of clk lane ?p "x0 + real n * ?step" n "a0 + n" "r0 + n"]
          fst_next snd_next tp e1 add_Suc_right)
  qed
  show ?case
  proof (cases "Suc n < 3 \<and> collisionDetected (?cand (Suc n)) (Lane.obstacles lane)")
    case False
    have "attemptLoop clk lane ?p (x0 + real n * ?step) n
            \<lparr> allocated = a0 + n, clockReads = r0 + n \<rparr> =
          (?cand (Suc n), producer\<lparr> lastObstacleTime := clk (r0 + (Suc n - 1)) \<rparr>, Suc n,
            \<lparr> allocated = a0 + Suc n, clockReads = r0 + Suc n \<rparr>)"
      using False by (simp only: unfold if_False diff_Suc_1)
    moreover have "Suc n < 3 \<longrightarrow> \<not> collisionDetected (?cand (Suc n)) (Lane.obstacles lane)"
      using False by blast
    moreover have "n < Suc n" "Suc n \<le> 3"
      using Suc.prems by simp_all
    ultimately show ?thesis by blast
  next
    case True
    have m: "m = 3 - Suc n" using Suc.hyps(2) by simp
    have less: "Suc n < 3" using True by blast
    obtain k where k: "Suc n < k" "k \<le> 3"
      and loop: "attemptLoop clk lane (producer\<lparr> lastObstacleTime := clk (r0 + n) \<rparr>)
             (x0 + real (Suc n) * ?step) (Suc n)
             \<lparr> allocated = a0 + Suc n, clockReads = r0 + Suc n \<rparr> =
           (?cand k, producer\<lparr> lastObstacleTime := clk (r0 + (k - 1)) \<rparr>, k,
            \<lparr> allocated = a0 + k, clockReads = r0 + k \<rparr>)"
      and free: "k < 3 \<longrightarrow> \<not> collisionDetected (?cand k) (Lane.obstacles lane)"
      using Suc.hyps(1) [OF m less, of "clk (r0 + n)"] by blast
    have "attemptLoop clk lane ?p (x0 + real n * ?step) n
            \<lparr> allocated = a0 + n, clockReads = r0 + n \<rparr> =
          (?cand k, producer\<lparr> lastObstacleTime := clk (r0 + (k - 1)) \<rparr>, k,
            \<lparr> allocated = a0 + k, clockReads = r0 + k \<rparr>)"
      using True by (simp only: unfold loop if_True simp_thms)
    moreover have "n < k" using k(1) by simp
    ultimately show ?thesis using k(2) free by blast
  qed
qed

lemma candidate_world:
  "candidate producer lane x0 \<lparr> allocated = allocated w, clockReads = r \<rparr> k =
     candidate producer lane x0 w k"
  by (simp add: candidate_def)

lemma attemptLoop_from_start:
  "\<exists>k. 1 \<le> k \<and> k \<le> 3 \<and>
     attemptLoop clk lane producer x0 0 (w\<lparr> clockReads := Suc (clockReads w) \<rparr>) =
       (candidate producer lane x0 w k,
        producer\<lparr> lastObstacleTime := clk (clockReads w + k) \<rparr>,
        k, \<lparr> allocated = allocated w + k, clockReads = clockReads w + 1 + k \<rparr>) \<and>
     (k < 3 \<longrightarrow> \<not> collisionDetected (candidate producer lane x0 w k) (Lane.obstacles lane))"
proof -
  have w1: "w\<lparr> clockReads := Suc (clockReads w) \<rparr> =
              \<lparr> allocated = allocated w, clockReads = Suc (clockReads w) \<rparr>"
    by simp
  have r: "\<exists>k. 0 < k \<and> k \<le> 3 \<and>
     attemptLoop clk lane producer x0 0 \<lparr> allocated = allocated w, clockReads = Suc (clockReads w) \<rparr> =
       (candidate producer lane x0 w k,
        producer\<lparr> lastObstacleTime := clk (Suc (clockReads w) + (k - 1)) \<rparr>,
        k, \<lparr> allocated = allocated w + k, clockReads = Suc (clockReads w) + k \<rparr>) \<and>
     (k < 3 \<longrightarrow> \<not> collisionDetected (candidate producer lane x0 w k) (Lane.obstacles lane))"
    using attemptLoop_result [where n = 0 and clk = clk and lane = lane and producer = producer
        and t = "lastObstacleTime producer" and ?x0.0 = x0 and ?a0.0 = "allocated w"
        and ?r0.0 = "Suc (clockReads w)"]
    by (simp add: candidate_world)
  then obtain k where k: "0 < k" "k \<le> 3"
    and loop: "attemptLoop clk lane producer x0 0
                 \<lparr> allocated = allocated w, clockReads = Suc (clockReads w) \<rparr> =
       (candidate producer lane x0 w k,
        producer\<lparr> lastObstacleTime := clk (Suc (clockReads w) + (k - 1)) \<rparr>,
        k, \<lparr> allocated = allocated w + k, clockReads = Suc (clockReads w) + k \<rparr>)"
    and free: "k < 3 \<longrightarrow> \<not> collisionDetected (candidate producer lane x0 w k) (Lane.obstacles lane)"
    by (elim exE conjE)
  have e: "Suc (clockReads w) + (k - 1) = clockReads w + k"
      "Suc (clockReads w) + k = clockReads w + 1 + k"
    using k(1) by simp_all
  have "attemptLoop clk lane producer x0 0 (w\<lparr> clockReads := Suc (clockReads w) \<rparr>) =
       (candidate producer lane x0 w k,
        producer\<lparr> lastObstacleTime := clk (clockReads w + k) \<rparr>,
        k, \<lparr> allocated = allocated w + k, clockReads = clockReads w + 1 + k \<rparr>)"
    unfolding w1 loop e by (rule refl)
  moreover have "1 \<le> k" using k(1) by simp
  ultimately show ?thesis
    using k(2) free by blast
qed

lemma produceOne_fired:
  assumes "readyForNext producer objects (clk (clockReads w)) = Inr True"
    and "\<not> randomizeTraffic producer \<or> int index = randomProducerIndex"
  shows "\<exists>k. 1 \<le> k \<and> k \<le> 3 \<and>
     produceOne clk objects x0 randomProducerIndex index producer lane w =
       Inr (producer\<lparr> lastObstacleTime := clk (clockReads w + k) \<rparr>,
            lane\<lparr> Lane.obstacles := Lane.obstacles lane @ [candidate producer lane x0 w k] \<rparr>,
            \<lparr> allocated = allocated w + k, clockReads = clockReads w + 1 + k \<rparr>) \<and>
     (k < 3 \<longrightarrow> \<not> collisionDetected (candidate producer lane x0 w k) (Lane.obstacles lane))"
proof -
  obtain k where k: "1 \<le> k" "k \<le> 3"
    and loop: "attemptLoop clk lane producer x0 0 (w\<lparr> clockReads := Suc (clockReads w) \<rparr>) =
       (candidate producer lane x0 w k,
        producer\<lparr> lastObstacleTime := clk (clockReads w + k) \<rparr>,
        k, \<lparr> allocated = allocated w + k, clockReads = clockReads w + 1 + k \<rparr>)"
    and free: "k < 3 \<longrightarrow> \<not> collisionDetected (candidate producer lane x0 w k) (Lane.obstacles lane)"
    using attemptLoop_from_start [of clk lane producer x0 w] by blast
  have "produceOne clk objects x0 randomProducerIndex index producer lane w =
       Inr (producer\<lparr> lastObstacleTime := clk (clockReads w + k) \<rparr>,
            lane\<lparr> Lane.obstacles := Lane.obstacles lane @ [candidate producer lane x0 w k] \<rparr>,
            \<lparr> allocated = allocated w + k, clockReads = clockReads w + 1 + k \<rparr>)"
    using assms by (simp add: produceOne_def loop addObstacle_def Let_def)
  then show ?thesis
    using k free by blast
qed


text \<open>
  Claim C9. The callback for a producer that fires (ready, and either not randomized or
  at the chosen index) returns the lane with exactly one obstacle appended, whatever
  the lane holds: the candidate of the attempt \<open>k\<close> at which the loop stopped,
  \<open>1 \<le> k \<le> 3\<close>. Before the third attempt the loop stops only at a candidate that does
  not collide; the third candidate is appended as it is. Each attempt ran \<open>next\<close>: \<open>k\<close>
  addresses and \<open>k\<close> clock readings after the readiness reading are used, and the
  producer carries the reading of the last attempt as its last emission time.
\<close>

theorem produceOne_fires:
  assumes "readyForNext producer objects (clk (clockReads w)) = Inr True"
    and "\<not> randomizeTraffic producer \<or> int index = randomProducerIndex"
  shows "\<exists>k. 1 \<le> k \<and> k \<le> 3 \<and>
     produceOne clk objects x0 randomProducerIndex index producer lane w =
       Inr (producer\<lparr> lastObstacleTime := clk (clockReads w + k) \<rparr>,
            lane\<lparr> Lane.obstacles := Lane.obstacles lane @ [candidate producer lane x0 w k] \<rparr>,
            \<lparr> allocated = allocated w + k, clockReads = clockReads w + 1 + k \<rparr>) \<and>
     (k < 3 \<longrightarrow> \<not> collisionDetected (candidate producer lane x0 w k) (Lane.obstacles lane))"
  using assms by (rule produceOne_fired)

text \<open>
  \<open>generateObstacles\<close> on a street of one RIGHT lane below the cap with one producer is
  the callback for that producer.
\<close>

lemma generateObstacles_single:
  assumes "lanes this = [lane]" and "obstacleProducers lane = [producer]"
    and "length (Lane.obstacles lane) < 15" and "Lane.direction lane = RIGHT"
    and "0 \<le> random1" "random1 < 1" "0 \<le> random2" "random2 < 1"
    and "produceOne clk (map ObstacleE (Lane.obstacles lane) @ sceneObjects this @ [PlayerE player])
           (-50) 0 0 producer lane w = Inr (producer1, lane1, w1)"
  shows "generateObstacles this player random1 random2 clk w =
           Inr (this\<lparr> lanes := [lane1\<lparr> obstacleProducers := [producer1] \<rparr>] \<rparr>, w1)"
proof -
  have f1: "\<lfloor>random1\<rfloor> = 0" "\<lfloor>random1 * real (Suc 0)\<rfloor> = 0"
    using assms(5,6) by (simp_all add: floor_eq_iff)
  have f2: "\<lfloor>random2\<rfloor> = 0" "\<lfloor>random2 * real (Suc 0)\<rfloor> = 0"
    using assms(7,8) by (simp_all add: floor_eq_iff)
  have "generateLane this player random2 clk lane w =
          Inr (lane1\<lparr> obstacleProducers := [producer1] \<rparr>, w1)"
    using assms(2,3,4,9) by (simp add: generateLane_def f2 Let_def)
  then show ?thesis
    using assms(1) by (simp add: generateObstacles_def f1 Let_def)
qed

lemma w9_ready: "readyForNext w7_producer objects (w9_clock (clockReads w9_world)) = Inr True"
  by (simp add: readyForNext_def readyForNext_base_def w7_producer_def new_ObstacleProducer_def
      w9_clock_def w9_world_def)

lemma w9_collides:
  "collisionDetected (candidate w7_producer w9_lane (-50) w9_world 1) (Lane.obstacles w9_lane)"
  "collisionDetected (candidate w7_producer w9_lane (-50) w9_world 2) (Lane.obstacles w9_lane)"
  "collisionDetected (candidate w7_producer w9_lane (-50) w9_world 3) (Lane.obstacles w9_lane)"
  by (simp_all add: collisionDetected_def intersects_def candidate_def clone_def
      w7_producer_def new_ObstacleProducer_def w7_template_def w9_lane_def w9_world_def
      w9_blocker_def new_Obstacle_def)

theorem produceOne_fires_witness:
  "readyForNext w7_producer w9_objects (w9_clock (clockReads w9_world)) = Inr True \<and>
   int 0 = 0 \<and>
   collisionDetected (candidate w7_producer w9_lane (-50) w9_world 3) (Lane.obstacles w9_lane) \<and>
   produceOne w9_clock w9_objects (-50) 0 0 w7_producer w9_lane w9_world =
     Inr (w7_producer\<lparr> lastObstacleTime := 5003 \<rparr>,
          w9_lane\<lparr> Lane.obstacles :=
            Lane.obstacles w9_lane @ [candidate w7_producer w9_lane (-50) w9_world 3] \<rparr>,
          \<lparr> allocated = 23, clockReads = 4 \<rparr>) \<and>
   generateObstacles w9_street w4_player 0 0 w9_clock w9_world =
     Inr (w9_street\<lparr> lanes :=
            [w9_lane\<lparr> Lane.obstacles :=
               Lane.obstacles w9_lane @ [candidate w7_producer w9_lane (-50) w9_world 3],
               obstacleProducers := [w7_producer\<lparr> lastObstacleTime := 5003 \<rparr>] \<rparr>] \<rparr>,
          \<lparr> allocated = 23, clockReads = 4 \<rparr>)"
proof -
  have g: "\<not> randomizeTraffic w7_producer \<or> int 0 = 0" by simp
  obtain k where k: "1 \<le> k" "k \<le> 3"
    and res: "produceOne w9_clock w9_objects (-50) 0 0 w7_producer w9_lane w9_world =
       Inr (w7_producer\<lparr> lastObstacleTime := w9_clock (clockReads w9_world + k) \<rparr>,
            w9_lane\<lparr> Lane.obstacles :=
              Lane.obstacles w9_lane @ [candidate w7_producer w9_lane (-50) w9_world k] \<rparr>,
            \<lparr> allocated = allocated w9_world + k, clockReads = clockReads w9_world + 1 + k \<rparr>)"
    and free: "k < 3 \<longrightarrow>
       \<not> collisionDetected (candidate w7_producer w9_lane (-50) w9_world k) (Lane.obstacles w9_lane)"
    using produceOne_fires [where clk = w9_clock and w = w9_world and producer = w7_producer
        and objects = w9_objects and index = 0 and randomProducerIndex = 0 and ?x0.0 = "-50"
        and lane = w9_lane, OF w9_ready g]
    by (elim exE conjE)
  have "k = 1 \<or> k = 2 \<or> k = 3" using k by auto
  then have k3: "k = 3"
    using free w9_collides(1,2) by auto
  have "w9_clock (clockReads w9_world + 3) = 5003" "allocated w9_world + 3 = 23"
    "clockReads w9_world + 1 + 3 = 4"
    by (simp_all add: w9_clock_def w9_world_def)
  then have one: "produceOne w9_clock w9_objects (-50) 0 0 w7_producer w9_lane w9_world =
     Inr (w7_producer\<lparr> lastObstacleTime := 5003 \<rparr>,
          w9_lane\<lparr> Lane.obstacles :=
            Lane.obstacles w9_lane @ [candidate w7_producer w9_lane (-50) w9_world 3] \<rparr>,
          \<lparr> allocated = 23, clockReads = 4 \<rparr>)"
    using res by (simp add: k3)
  have s: "lanes w9_street = [w9_lane]" "obstacleProducers w9_lane = [w7_producer]"
    "length (Lane.obstacles w9_lane) < 15" "Lane.direction w9_lane = RIGHT"
    by (simp_all add: w9_street_def w9_lane_def)
  have "generateObstacles w9_street w4_player 0 0 w9_clock w9_world =
     Inr (w9_street\<lparr> lanes :=
            [(w9_lane\<lparr> Lane.obstacles :=
               Lane.obstacles w9_lane @ [candidate w7_producer w9_lane (-50) w9_world 3] \<rparr>)
               \<lparr> obstacleProducers := [w7_producer\<lparr> lastObstacleTime := 5003 \<rparr>] \<rparr>] \<rparr>,
          \<lparr> allocated = 23, clockReads = 4 \<rparr>)"
    by (rule generateObstacles_single [OF s _ _ _ _ one [unfolded w9_objects_def]]) simp_all
  then show ?thesis
    using one w9_ready w9_collides(3) by simp
qed

text \<open>
  A throw keeps the stamps assigned before it. One lane with a plain producer and a
  crosswalk-gated one, and no pedestrian signal among the scene objects: the plain
  producer emits and is stamped, the crosswalk-gated one throws, and the receiver
  street has the stamp and no new obstacle.
\<close>

lemma generateObstacles_throw:
  "generateObstacles e9_street w4_player 0 0 e9_clock w9_world =
     Inl (CrosswalkSignNotFound,
          e9_street\<lparr> lanes :=
            [e9_lane\<lparr> obstacleProducers :=
               [w7_producer\<lparr> lastObstacleTime := 100000002 \<rparr>, w8_crosswalk] \<rparr>] \<rparr>,
          \<lparr> allocated = 21, clockReads = 3 \<rparr>)"
  by (simp add: generateObstacles_def generateLane_def e9_street_def e9_lane_def e9_clock_def
      w9_world_def w7_producer_def w8_crosswalk_def w7_template_def
      produceOne_def readyForNext_def readyForNext_base_def readyForNext_Crosswalk_def
      new_ObstacleProducer_def new_CrosswalkObstacleProducer_def
      attemptLoop_step next_def clone_def new_Obstacle_def collisionDetected_def
      addObstacle_def Let_def)

section \<open>Throttling (ObstacleProducer.readyForNext, ObstacleProducer.next)\<close>

lemma next_fields:
  "lastObstacleTime (snd (next this x0 now a)) = now"
  "maxFrequencyInSeconds (snd (next this x0 now a)) = maxFrequencyInSeconds this"
  "producerClass (snd (next this x0 now a)) = producerClass this"
  "randomizeTraffic (snd (next this x0 now a)) = randomizeTraffic this"
  "template (snd (next this x0 now a)) = template this"
  "assignX (snd (next this x0 now a)) = assignX this"
  by (simp_all add: next_def Let_def)

lemma ready_gate:
  assumes "readyForNext this objects now = Inr True"
  shows "readyForNext_base this objects now"
  using assms
  by (cases "producerClass this")
     (auto simp: readyForNext_def readyForNext_Target_def readyForNext_Crosswalk_def Let_def
           split: if_splits option.splits)

lemma gate_ms:
  "readyForNext_base this objects now \<longleftrightarrow>
     1000 * maxFrequencyInSeconds this < real_of_int (now - lastObstacleTime this)"
  by (simp add: readyForNext_base_def Let_def field_simps)

text \<open>
  The three ways the callback ends: with the error of \<open>readyForNext\<close>; with producer and
  lane as they were; or, and then the producer was ready, with one obstacle appended and
  the producer stamped with the reading of the last attempt.
\<close>

lemma produceOne_cases:
  "(\<exists>e. produceOne clk objects x0 chosen index producer lane w =
          Inl (e, w\<lparr> clockReads := Suc (clockReads w) \<rparr>)) \<or>
   produceOne clk objects x0 chosen index producer lane w =
     Inr (producer, lane, w\<lparr> clockReads := Suc (clockReads w) \<rparr>) \<or>
   (readyForNext producer objects (clk (clockReads w)) = Inr True \<and>
    (\<exists>k. 1 \<le> k \<and> k \<le> 3 \<and>
       produceOne clk objects x0 chosen index producer lane w =
         Inr (producer\<lparr> lastObstacleTime := clk (clockReads w + k) \<rparr>,
              lane\<lparr> Lane.obstacles := Lane.obstacles lane @ [candidate producer lane x0 w k] \<rparr>,
              \<lparr> allocated = allocated w + k, clockReads = clockReads w + 1 + k \<rparr>)))"
proof (cases "readyForNext producer objects (clk (clockReads w))")
  case (Inl e)
  then show ?thesis by (simp add: produceOne_def Let_def)
next
  case (Inr ready)
  show ?thesis
  proof (cases "ready \<and> (\<not> randomizeTraffic producer \<or> int index = chosen)")
    case False
    then have "produceOne clk objects x0 chosen index producer lane w =
                 Inr (producer, lane, w\<lparr> clockReads := Suc (clockReads w) \<rparr>)"
      using Inr by (auto simp: produceOne_def Let_def)
    then show ?thesis by blast
  next
    case True
    then have r: "readyForNext producer objects (clk (clockReads w)) = Inr True"
      and g: "\<not> randomizeTraffic producer \<or> int index = chosen"
      using Inr by simp_all
    show ?thesis
      using r produceOne_fired [where clk = clk and w = w and producer = producer
          and objects = objects and index = index and randomProducerIndex = chosen
          and ?x0.0 = x0 and lane = lane, OF r g]
      by blast
  qed
qed

text \<open>
  Whatever the clock reads, every emission of a producer of maximum frequency 1 is asked
  more than 1000 ms after the time stamped for the emission before it.
\<close>

lemma emitted_successive:
  assumes "maxFrequencyInSeconds this = 1"
  shows "successively (\<lambda>earlier later. snd earlier + 1000 < fst later)
           (emitted clk this w calls) \<and>
         (emitted clk this w calls \<noteq> [] \<longrightarrow>
            lastObstacleTime this + 1000 < fst (hd (emitted clk this w calls)))"
  using assms
proof (induction calls arbitrary: this w)
  case Nil
  show ?case by simp
next
  case (Cons call calls)
  obtain skipped objects x0 chosen index lane
    where call: "call = (skipped, objects, x0, chosen, index, lane)"
    by (cases call) auto
  define w0 where "w0 = w\<lparr> clockReads := clockReads w + skipped \<rparr>"
  let ?one = "produceOne clk objects x0 chosen index this lane w0"
  consider (thrown) e where "?one = Inl (e, w0\<lparr> clockReads := Suc (clockReads w0) \<rparr>)"
    | (idle) "?one = Inr (this, lane, w0\<lparr> clockReads := Suc (clockReads w0) \<rparr>)"
    | (fired) k where "readyForNext this objects (clk (clockReads w0)) = Inr True"
        "1 \<le> k" "k \<le> 3"
        "?one = Inr (this\<lparr> lastObstacleTime := clk (clockReads w0 + k) \<rparr>,
              lane\<lparr> Lane.obstacles := Lane.obstacles lane @ [candidate this lane x0 w0 k] \<rparr>,
              \<lparr> allocated = allocated w0 + k, clockReads = clockReads w0 + 1 + k \<rparr>)"
    using produceOne_cases [of clk objects x0 chosen index this lane w0] by blast
  then show ?case
  proof cases
    case thrown
    then have "emitted clk this w (call # calls) =
                 emitted clk this (w0\<lparr> clockReads := Suc (clockReads w0) \<rparr>) calls"
      by (simp add: call w0_def [symmetric])
    then show ?thesis
      using Cons.IH [OF Cons.prems] by simp
  next
    case idle
    then have "emitted clk this w (call # calls) =
                 emitted clk this (w0\<lparr> clockReads := Suc (clockReads w0) \<rparr>) calls"
      by (simp add: call w0_def [symmetric])
    then show ?thesis
      using Cons.IH [OF Cons.prems] by simp
  next
    case fired
    let ?asked = "clk (clockReads w0)"
    let ?stamp = "clk (clockReads w0 + k)"
    let ?next = "this\<lparr> lastObstacleTime := ?stamp \<rparr>"
    let ?w1 = "\<lparr> allocated = allocated w0 + k, clockReads = clockReads w0 + 1 + k \<rparr>"
    have step: "emitted clk this w (call # calls) = (?asked, ?stamp) # emitted clk ?next ?w1 calls"
      using fired(4) by (simp add: call w0_def [symmetric])
    have gate: "lastObstacleTime this + 1000 < ?asked"
      using ready_gate [OF fired(1)] Cons.prems by (simp add: gate_ms)
    have f: "maxFrequencyInSeconds ?next = 1"
      using Cons.prems by simp
    have ih: "successively (\<lambda>earlier later. snd earlier + 1000 < fst later)
                (emitted clk ?next ?w1 calls)"
      "emitted clk ?next ?w1 calls \<noteq> [] \<longrightarrow>
         ?stamp + 1000 < fst (hd (emitted clk ?next ?w1 calls))"
      using Cons.IH [OF f, of ?w1] by simp_all
    show ?thesis
      unfolding step using gate ih by (auto simp: successively_Cons)
  qed
qed

text \<open>
  With a clock that does not run backwards, every emission of a producer of maximum
  frequency 1 is asked more than 1000 ms after the producer's last emission time and
  after the stamp of every earlier emission, and is stamped no earlier than it is asked.
\<close>

lemma emitted_after:
  assumes "maxFrequencyInSeconds this = 1" and "mono clk"
  shows "list_all (\<lambda>e. lastObstacleTime this + 1000 < fst e \<and> fst e \<le> snd e)
           (emitted clk this w calls) \<and>
         sorted_wrt (\<lambda>earlier later. snd earlier + 1000 < fst later) (emitted clk this w calls)"
  using assms(1)
proof (induction calls arbitrary: this w)
  case Nil
  show ?case by simp
next
  case (Cons call calls)
  obtain skipped objects x0 chosen index lane
    where call: "call = (skipped, objects, x0, chosen, index, lane)"
    by (cases call) auto
  define w0 where "w0 = w\<lparr> clockReads := clockReads w + skipped \<rparr>"
  let ?one = "produceOne clk objects x0 chosen index this lane w0"
  consider (thrown) e where "?one = Inl (e, w0\<lparr> clockReads := Suc (clockReads w0) \<rparr>)"
    | (idle) "?one = Inr (this, lane, w0\<lparr> clockReads := Suc (clockReads w0) \<rparr>)"
    | (fired) k where "readyForNext this objects (clk (clockReads w0)) = Inr True"
        "1 \<le> k" "k \<le> 3"
        "?one = Inr (this\<lparr> lastObstacleTime := clk (clockReads w0 + k) \<rparr>,
              lane\<lparr> Lane.obstacles := Lane.obstacles lane @ [candidate this lane x0 w0 k] \<rparr>,
              \<lparr> allocated = allocated w0 + k, clockReads = clockReads w0 + 1 + k \<rparr>)"
    using produceOne_cases [of clk objects x0 chosen index this lane w0] by blast
  then show ?case
  proof cases
    case thrown
    then have "emitted clk this w (call # calls) =
                 emitted clk this (w0\<lparr> clockReads := Suc (clockReads w0) \<rparr>) calls"
      by (simp add: call w0_def [symmetric])
    then show ?thesis
      using Cons.IH [OF Cons.prems] by simp
  next
    case idle
    then have "emitted clk this w (call # calls) =
                 emitted clk this (w0\<lparr> clockReads := Suc (clockReads w0) \<rparr>) calls"
      by (simp add: call w0_def [symmetric])
    then show ?thesis
      using Cons.IH [OF Cons.prems] by simp
  next
    case fired
    let ?asked = "clk (clockReads w0)"
    let ?stamp = "clk (clockReads w0 + k)"
    let ?next = "this\<lparr> lastObstacleTime := ?stamp \<rparr>"
    let ?w1 = "\<lparr> allocated = allocated w0 + k, clockReads = clockReads w0 + 1 + k \<rparr>"
    have step: "emitted clk this w (call # calls) = (?asked, ?stamp) # emitted clk ?next ?w1 calls"
      using fired(4) by (simp add: call w0_def [symmetric])
    have gate: "lastObstacleTime this + 1000 < ?asked"
      using ready_gate [OF fired(1)] Cons.prems by (simp add: gate_ms)
    have later: "?asked \<le> ?stamp"
      using assms(2) by (simp add: monoD)
    have f: "maxFrequencyInSeconds ?next = 1"
      using Cons.prems by simp
    have ih: "list_all (\<lambda>e. ?stamp + 1000 < fst e \<and> fst e \<le> snd e) (emitted clk ?next ?w1 calls)"
      "sorted_wrt (\<lambda>earlier later. snd earlier + 1000 < fst later) (emitted clk ?next ?w1 calls)"
      using Cons.IH [OF f, of ?w1] by simp_all
    have all: "list_all (\<lambda>e. lastObstacleTime this + 1000 < fst e \<and> fst e \<le> snd e)
                 (emitted clk ?next ?w1 calls)"
      using ih(1) gate later by (auto simp: list_all_iff)
    have head: "\<forall>e \<in> set (emitted clk ?next ?w1 calls). ?stamp + 1000 < fst e"
      using ih(1) by (auto simp: list_all_iff)
    show ?thesis
      unfolding step using gate later all head ih(2) by simp
  qed
qed

lemma emitted_spaced:
  assumes "maxFrequencyInSeconds this = 1" and "mono clk"
  shows "spaced (map fst (emitted clk this w calls))"
    and "spaced (map snd (emitted clk this w calls))"
proof -
  let ?es = "emitted clk this w calls"
  have le: "\<forall>e \<in> set ?es. fst e \<le> snd e"
    using emitted_after [OF assms, of w calls] by (auto simp: list_all_iff)
  have chain: "sorted_wrt (\<lambda>earlier later. snd earlier + 1000 < fst later) ?es"
    using emitted_after [OF assms, of w calls] by blast
  have "sorted_wrt (\<lambda>earlier later. fst earlier + 1000 < fst later) ?es"
  proof (rule sorted_wrt_mono_rel [OF _ chain])
    fix e l assume "e \<in> set ?es" and "snd e + 1000 < fst l"
    then show "fst e + 1000 < fst l" using le by fastforce
  qed
  then show "spaced (map fst ?es)"
    by (simp add: spaced_def sorted_wrt_map)
  have "sorted_wrt (\<lambda>earlier later. snd earlier + 1000 < snd later) ?es"
  proof (rule sorted_wrt_mono_rel [OF _ chain])
    fix e l assume "l \<in> set ?es" and "snd e + 1000 < fst l"
    then show "snd e + 1000 < snd l" using le by fastforce
  qed
  then show "spaced (map snd ?es)"
    by (simp add: spaced_def sorted_wrt_map)
qed

text \<open>
  Claim C7. The base \<open>readyForNext\<close> is true exactly when the seconds elapsed since the
  last emission strictly exceed the maximum frequency; \<open>next\<close> stamps the last emission
  time; and over any sequence of calls of the \<open>generateObstacles\<close> callback, a producer
  of maximum frequency 1 s emits at times more than 1000 ms apart, however many calls
  there are. Each emission is asked more than 1000 ms after the time stamped for the
  emission before it, whatever the clock reads; and with a clock that does not run
  backwards any two emissions are more than 1000 ms apart, by the readings at which
  they were asked, by the times \<open>next\<close> stamped for them, and from the stamp of the
  earlier to the asking of the later.
\<close>

theorem producer_throttled:
  shows "(readyForNext_base this objects now \<longleftrightarrow>
           real_of_int (now - lastObstacleTime this) / 1000 > maxFrequencyInSeconds this) \<and>
         lastObstacleTime (snd (next this x0 now a)) = now \<and>
         (maxFrequencyInSeconds this = 1 \<longrightarrow>
            successively (\<lambda>earlier later. snd earlier + 1000 < fst later)
              (emitted clk this w calls)) \<and>
         (maxFrequencyInSeconds this = 1 \<and> mono clk \<longrightarrow>
            spaced (map fst (emitted clk this w calls)) \<and>
            spaced (map snd (emitted clk this w calls)) \<and>
            sorted_wrt (\<lambda>earlier later. snd earlier + 1000 < fst later)
              (emitted clk this w calls))"
  using emitted_spaced [of this clk w calls] emitted_after [of this clk w calls]
    emitted_successive [of this clk w calls]
  by (simp add: readyForNext_base_def next_fields)

lemma w7_emitted:
  "emitted w7_clock w7_producer w9_world w7_calls = [(1001, 1401), (3001, 4201)]"
  by (simp add: w7_calls_def w7_clock_def w7_producer_def w9_world_def w7_lane_def w9_lane_def
      w9_objects_def w9_street_def w9_blocker_def w7_template_def
      produceOne_def readyForNext_def readyForNext_base_def new_ObstacleProducer_def
      attemptLoop_step next_def clone_def new_Obstacle_def collisionDetected_def intersects_def
      addObstacle_def Let_def)

text \<open>
  Two calls of \<open>generateObstacles\<close> on a street of one lane with that producer: the first,
  asked at 1001, emits and stamps 1401; the second, asked at 1801, returns the street as
  it is.
\<close>

lemma w7_street_run:
  "generateObstacles w7_street w4_player 0 0 w7_clock w9_world =
     Inr (w7_street_emitted, \<lparr> allocated = 21, clockReads = 2 \<rparr>)"
  "generateObstacles w7_street_emitted w4_player 0 0 w7_clock \<lparr> allocated = 21, clockReads = 2 \<rparr> =
     Inr (w7_street_emitted, \<lparr> allocated = 21, clockReads = 3 \<rparr>)"
  by (simp_all add: generateObstacles_def generateLane_def w7_street_emitted_def w7_street_def
      w7_lane_def w7_clock_def w9_world_def w7_producer_def w7_template_def
      produceOne_def readyForNext_def readyForNext_base_def new_ObstacleProducer_def
      attemptLoop_step next_def clone_def new_Obstacle_def collisionDetected_def
      addObstacle_def Let_def)

theorem producer_throttled_witness:
  "maxFrequencyInSeconds w7_producer = 1 \<and> mono w7_clock \<and>
   emitted w7_clock w7_producer w9_world w7_calls = [(1001, 1401), (3001, 4201)] \<and>
   generateObstacles w7_street w4_player 0 0 w7_clock w9_world =
     Inr (w7_street_emitted, \<lparr> allocated = 21, clockReads = 2 \<rparr>) \<and>
   generateObstacles w7_street_emitted w4_player 0 0 w7_clock \<lparr> allocated = 21, clockReads = 2 \<rparr> =
     Inr (w7_street_emitted, \<lparr> allocated = 21, clockReads = 3 \<rparr>) \<and>
   successively (\<lambda>earlier later. snd earlier + 1000 < fst later)
     (emitted w7_clock w7_producer w9_world w7_calls) \<and>
   spaced (map fst (emitted w7_clock w7_producer w9_world w7_calls)) \<and>
   spaced (map snd (emitted w7_clock w7_producer w9_world w7_calls)) \<and>
   sorted_wrt (\<lambda>earlier later. snd earlier + 1000 < fst later)
     (emitted w7_clock w7_producer w9_world w7_calls)"
proof -
  have m: "maxFrequencyInSeconds w7_producer = 1"
    by (simp add: w7_producer_def new_ObstacleProducer_def)
  have c: "mono w7_clock"
    by (simp add: mono_def w7_clock_def)
  show ?thesis
    using m c w7_emitted w7_street_run
      producer_throttled [where this = w7_producer and clk = w7_clock and w = w9_world
        and calls = w7_calls]
    by blast
qed

section \<open>The producers outside the random selection\<close>

lemma constructed_new:
  "constructed (new_ObstacleProducer tmpl f ax rt)"
  "constructed (new_TargetObstacleProducer tmpl f ax target)"
  "constructed (new_CrosswalkObstacleProducer tmpl)"
  by (simp_all add: constructed_def new_ObstacleProducer_def new_TargetObstacleProducer_def
      new_CrosswalkObstacleProducer_def)

lemma constructed_iff:
  "constructed p \<longleftrightarrow>
     (case producerClass p of
        ObstacleProducerC \<Rightarrow> True
      | TargetObstacleProducerC target \<Rightarrow> \<not> randomizeTraffic p
      | CrosswalkObstacleProducerC \<Rightarrow>
          \<not> randomizeTraffic p \<and> maxFrequencyInSeconds p = 100000 \<and> \<not> assignX p)"
  by (cases p)
     (auto simp: constructed_def new_ObstacleProducer_def new_TargetObstacleProducer_def
        new_CrosswalkObstacleProducer_def split: ProducerClass.splits)

lemma constructed_next:
  assumes "constructed p"
  shows "constructed (snd (next p x1 now a))"
  using assms by (simp add: constructed_iff next_producer split: ProducerClass.splits)

lemma constructed_subclass:
  assumes "constructed p" and "producerClass p \<noteq> ObstacleProducerC"
  shows "\<not> randomizeTraffic p"
  using assms by (cases "producerClass p") (simp_all add: constructed_iff)

lemma produceOne_not_randomized:
  assumes "\<not> randomizeTraffic p"
  shows "produceOne clk objects x0 chosen index p lane w =
         produceOne clk objects x0 (int index) index p lane w"
  using assms by (simp add: produceOne_def Let_def split: sum.splits)

lemma produceOne_not_chosen:
  assumes "randomizeTraffic p" and "int index \<noteq> chosen"
    and "readyForNext p objects (clk (clockReads w)) = Inr b"
  shows "produceOne clk objects x0 chosen index p lane w =
         Inr (p, lane, w\<lparr> clockReads := Suc (clockReads w) \<rparr>)"
  using assms by (simp add: produceOne_def Let_def)

text \<open>
  Claim C10. The constructors of the target-gated and of the crosswalk-gated producer
  pass \<open>false\<close> for \<open>randomizeTraffic\<close>, and \<open>next\<close> keeps it. For such a producer the
  callback does not depend on the randomly chosen index, and when it is ready it fires
  (one obstacle appended, as in claim C9) for every chosen index. A producer that is
  randomized is a plain producer, and when its index is not the chosen one it does not
  fire even if ready.
\<close>

theorem subclasses_not_randomized:
  assumes "constructed p"
  shows "\<not> randomizeTraffic (new_TargetObstacleProducer tmpl f ax target) \<and>
         \<not> randomizeTraffic (new_CrosswalkObstacleProducer tmpl) \<and>
         constructed (new_TargetObstacleProducer tmpl f ax target) \<and>
         constructed (new_CrosswalkObstacleProducer tmpl) \<and>
         constructed (snd (next p x1 now a)) \<and>
         (producerClass p \<noteq> ObstacleProducerC \<longrightarrow>
            \<not> randomizeTraffic p \<and>
            produceOne clk objects x0 chosen index p lane w =
              produceOne clk objects x0 (int index) index p lane w \<and>
            (readyForNext p objects (clk (clockReads w)) = Inr True \<longrightarrow>
               (\<exists>k. 1 \<le> k \<and> k \<le> 3 \<and>
                  produceOne clk objects x0 chosen index p lane w =
                    Inr (p\<lparr> lastObstacleTime := clk (clockReads w + k) \<rparr>,
                         lane\<lparr> Lane.obstacles := Lane.obstacles lane @ [candidate p lane x0 w k] \<rparr>,
                         \<lparr> allocated = allocated w + k, clockReads = clockReads w + 1 + k \<rparr>)))) \<and>
         (randomizeTraffic p \<longrightarrow> producerClass p = ObstacleProducerC) \<and>
         (randomizeTraffic p \<and> int index \<noteq> chosen \<and>
          readyForNext p objects (clk (clockReads w)) = Inr True \<longrightarrow>
            produceOne clk objects x0 chosen index p lane w =
              Inr (p, lane, w\<lparr> clockReads := Suc (clockReads w) \<rparr>))"
proof -
  have sub: "\<not> randomizeTraffic p" if "producerClass p \<noteq> ObstacleProducerC"
    using assms that by (rule constructed_subclass)
  have fires: "\<exists>k. 1 \<le> k \<and> k \<le> 3 \<and>
                  produceOne clk objects x0 chosen index p lane w =
                    Inr (p\<lparr> lastObstacleTime := clk (clockReads w + k) \<rparr>,
                         lane\<lparr> Lane.obstacles := Lane.obstacles lane @ [candidate p lane x0 w k] \<rparr>,
                         \<lparr> allocated = allocated w + k, clockReads = clockReads w + 1 + k \<rparr>)"
    if "producerClass p \<noteq> ObstacleProducerC"
      and "readyForNext p objects (clk (clockReads w)) = Inr True"
    using produceOne_fired [where clk = clk and w = w and producer = p and objects = objects
        and index = index and randomProducerIndex = chosen and ?x0.0 = x0 and lane = lane,
        OF that(2)] sub [OF that(1)]
    by blast
  have c4: "producerClass p \<noteq> ObstacleProducerC \<longrightarrow>
            \<not> randomizeTraffic p \<and>
            produceOne clk objects x0 chosen index p lane w =
              produceOne clk objects x0 (int index) index p lane w \<and>
            (readyForNext p objects (clk (clockReads w)) = Inr True \<longrightarrow>
               (\<exists>k. 1 \<le> k \<and> k \<le> 3 \<and>
                  produceOne clk objects x0 chosen index p lane w =
                    Inr (p\<lparr> lastObstacleTime := clk (clockReads w + k) \<rparr>,
                         lane\<lparr> Lane.obstacles := Lane.obstacles lane @ [candidate p lane x0 w k] \<rparr>,
                         \<lparr> allocated = allocated w + k, clockReads = clockReads w + 1 + k \<rparr>)))"
  proof (intro impI conjI)
    assume nc: "producerClass p \<noteq> ObstacleProducerC"
    show "\<not> randomizeTraffic p" by (rule sub [OF nc])
    show "produceOne clk objects x0 chosen index p lane w =
              produceOne clk objects x0 (int index) index p lane w"
      by (rule produceOne_not_randomized [OF sub [OF nc]])
    show "\<exists>k. 1 \<le> k \<and> k \<le> 3 \<and>
                  produceOne clk objects x0 chosen index p lane w =
                    Inr (p\<lparr> lastObstacleTime := clk (clockReads w + k) \<rparr>,
                         lane\<lparr> Lane.obstacles := Lane.obstacles lane @ [candidate p lane x0 w k] \<rparr>,
                         \<lparr> allocated = allocated w + k, clockReads = clockReads w + 1 + k \<rparr>)"
      if "readyForNext p objects (clk (clockReads w)) = Inr True"
      by (rule fires [OF nc that])
  qed
  have c5: "randomizeTraffic p \<longrightarrow> producerClass p = ObstacleProducerC"
    using sub by blast
  have c6: "randomizeTraffic p \<and> int index \<noteq> chosen \<and>
          readyForNext p objects (clk (clockReads w)) = Inr True \<longrightarrow>
            produceOne clk objects x0 chosen index p lane w =
              Inr (p, lane, w\<lparr> clockReads := Suc (clockReads w) \<rparr>)"
    by (simp add: produceOne_def Let_def)
  have c1: "\<not> randomizeTraffic (new_TargetObstacleProducer tmpl f ax target)"
    by (simp add: new_TargetObstacleProducer_def new_ObstacleProducer_def)
  have c2: "\<not> randomizeTraffic (new_CrosswalkObstacleProducer tmpl)"
    by (simp add: new_CrosswalkObstacleProducer_def new_ObstacleProducer_def)
  show ?thesis
    using c1 c2 constructed_new(2) [of tmpl f ax target] constructed_new(3) [of tmpl]
      constructed_next [OF assms, of x1 now a] c4 c5 c6
    by (intro conjI)
qed

lemma w10_ready:
  "readyForNext w8_target [PlayerE c6_player] (w9_clock (clockReads w9_world)) = Inr True"
  by (simp add: readyForNext_def readyForNext_Target_def readyForNext_base_def w8_target_def
      new_TargetObstacleProducer_def new_ObstacleProducer_def w9_clock_def w9_world_def
      intersects_def c6_zone_def c6_player_def)

theorem subclasses_not_randomized_witness:
  "constructed w8_target \<and> producerClass w8_target \<noteq> ObstacleProducerC \<and>
   \<not> randomizeTraffic w8_target \<and>
   readyForNext w8_target [PlayerE c6_player] (w9_clock (clockReads w9_world)) = Inr True \<and>
   produceOne w9_clock [PlayerE c6_player] (-50) 5 0 w8_target w9_lane w9_world =
     produceOne w9_clock [PlayerE c6_player] (-50) (int 0) 0 w8_target w9_lane w9_world \<and>
   (\<exists>k. 1 \<le> k \<and> k \<le> 3 \<and>
      produceOne w9_clock [PlayerE c6_player] (-50) 5 0 w8_target w9_lane w9_world =
        Inr (w8_target\<lparr> lastObstacleTime := w9_clock (clockReads w9_world + k) \<rparr>,
             w9_lane\<lparr> Lane.obstacles :=
               Lane.obstacles w9_lane @ [candidate w8_target w9_lane (-50) w9_world k] \<rparr>,
             \<lparr> allocated = allocated w9_world + k, clockReads = clockReads w9_world + 1 + k \<rparr>)) \<and>
   constructed w7_producer \<and> randomizeTraffic w7_producer \<and>
   producerClass w7_producer = ObstacleProducerC \<and> int 0 \<noteq> 5 \<and>
   readyForNext w7_producer [] (w9_clock (clockReads w9_world)) = Inr True \<and>
   produceOne w9_clock [] (-50) 5 0 w7_producer w9_lane w9_world =
     Inr (w7_producer, w9_lane, w9_world\<lparr> clockReads := Suc (clockReads w9_world) \<rparr>)"
proof -
  have c1: "constructed w8_target"
    by (simp add: w8_target_def constructed_new)
  have c2: "constructed w7_producer"
    by (simp add: w7_producer_def constructed_new)
  have n: "producerClass w8_target \<noteq> ObstacleProducerC"
    by (simp add: w8_target_def new_TargetObstacleProducer_def new_ObstacleProducer_def)
  have r: "randomizeTraffic w7_producer" "int 0 \<noteq> 5"
    by (simp_all add: w7_producer_def new_ObstacleProducer_def)
  note t1 = subclasses_not_randomized [OF c1, where clk = w9_clock and w = w9_world
      and objects = "[PlayerE c6_player]" and ?x0.0 = "-50" and chosen = 5 and index = 0
      and lane = w9_lane]
  note t2 = subclasses_not_randomized [OF c2, where clk = w9_clock and w = w9_world
      and objects = "[]" and ?x0.0 = "-50" and chosen = 5 and index = 0 and lane = w9_lane]
  have a: "\<not> randomizeTraffic w8_target"
    "produceOne w9_clock [PlayerE c6_player] (-50) 5 0 w8_target w9_lane w9_world =
     produceOne w9_clock [PlayerE c6_player] (-50) (int 0) 0 w8_target w9_lane w9_world"
    "\<exists>k. 1 \<le> k \<and> k \<le> 3 \<and>
      produceOne w9_clock [PlayerE c6_player] (-50) 5 0 w8_target w9_lane w9_world =
        Inr (w8_target\<lparr> lastObstacleTime := w9_clock (clockReads w9_world + k) \<rparr>,
             w9_lane\<lparr> Lane.obstacles :=
               Lane.obstacles w9_lane @ [candidate w8_target w9_lane (-50) w9_world k] \<rparr>,
             \<lparr> allocated = allocated w9_world + k, clockReads = clockReads w9_world + 1 + k \<rparr>)"
    using t1 n w10_ready by blast+
  have b: "producerClass w7_producer = ObstacleProducerC"
    "produceOne w9_clock [] (-50) 5 0 w7_producer w9_lane w9_world =
     Inr (w7_producer, w9_lane, w9_world\<lparr> clockReads := Suc (clockReads w9_world) \<rparr>)"
    using t2 r w9_ready by blast+
  show ?thesis
    using c1 c2 n r a b w10_ready w9_ready by (intro conjI)
qed

end
